theory Spec2Isabelle
  imports Complex_Main
begin

section \<open>Values, errors and the outside world\<close>

text \<open>
  The API service module (\<^verbatim>\<open>app/services/api.ts\<close>) talks to two hosted services with
  \<^verbatim>\<open>fetch\<close>. A response body is parsed JSON. The numbers of a body are kept as
  integers: no function of the module computes with a numeric payload, it only tests it
  for truth and prints it. An object is the parsed object, one entry per key.
\<close>

datatype json =
    JNull
  | JBool bool
  | JNum int
  | JStr string
  | JArr "json list"
  | JObj "(string \<times> json) list"

text \<open>A thrown JavaScript value: the constructor of the error and its message.\<close>

datatype js_error = Error string | TypeError string | SyntaxError string

text \<open>
  Reading a property \<^verbatim>\<open>v.name\<close> of a parsed JSON value, for the names the programs read
  (none of them is a built-in property of a string, number, boolean or array). The result
  \<open>None\<close> is JavaScript's \<^verbatim>\<open>undefined\<close>; reading a property of \<^verbatim>\<open>null\<close> throws.
\<close>

fun get_prop :: "json \<Rightarrow> string \<Rightarrow> js_error + json option" where
  "get_prop JNull name = Inl (TypeError (''Cannot read property '' @ name @ '' of null''))"
| "get_prop (JObj kvs) name = Inr (map_of kvs name)"
| "get_prop v name = Inr None"

text \<open>The \<^verbatim>\<open>typeof\<close> operator on a parsed JSON value or \<^verbatim>\<open>undefined\<close>.\<close>

fun typeof :: "json option \<Rightarrow> string" where
  "typeof None = ''undefined''"
| "typeof (Some JNull) = ''object''"
| "typeof (Some (JBool b)) = ''boolean''"
| "typeof (Some (JNum n)) = ''number''"
| "typeof (Some (JStr s)) = ''string''"
| "typeof (Some (JArr vs)) = ''object''"
| "typeof (Some (JObj kvs)) = ''object''"

datatype http_method = GET | POST

record request =
  url :: string
  req_method :: http_method
  headers :: "(string \<times> string) list"
  body :: "json option"

text \<open>
  What \<^verbatim>\<open>fetch\<close> hands back when its promise resolves: the \<^verbatim>\<open>ok\<close> flag, the status
  code, and what \<^verbatim>\<open>response.json()\<close> gives (it rejects on a body that is not JSON).
\<close>

record response =
  ok :: bool
  status :: int
  body_json :: "js_error + json"

datatype fetch_outcome = Rejects js_error | Resolves response

text \<open>
  A JavaScript number handed to the module from outside: a finite value (every finite
  double is a rational number), one of the two infinities, or \<^verbatim>\<open>NaN\<close>.
\<close>

datatype js_number = Num rat | PosInfinity | NegInfinity | NaN

text \<open>
  Everything the service module does to its surroundings is a network request, a timer or
  a call of the caller's progress callback; console output is not modelled.
\<close>

datatype event =
    Fetch request
  | SetTimeout js_number
  | Progress int js_number

text \<open>
  The world: \<open>net w n\<close> is how the \<open>n\<close>-th request from now on will end (the services
  are outside the program, so every sequence of outcomes is possible), and \<open>trace w\<close>
  lists what the program has done so far, oldest first.
\<close>

record world =
  net :: "nat \<Rightarrow> fetch_outcome"
  trace :: "event list"

definition emit :: "event \<Rightarrow> world \<Rightarrow> world" where
  "emit ev w = w\<lparr>trace := trace w @ [ev]\<rparr>"

text \<open>The world after one more request has been sent and its outcome consumed.\<close>

definition served :: "request \<Rightarrow> world \<Rightarrow> world" where
  "served req w = (emit (Fetch req) w)\<lparr>net := (\<lambda>n. net w (Suc n))\<rparr>"

definition fetch :: "request \<Rightarrow> world \<Rightarrow> (js_error + response) \<times> world" where
  "fetch req w =
     (case net w 0 of
        Rejects e \<Rightarrow> (Inl e, served req w)
      | Resolves r \<Rightarrow> (Inr r, served req w))"

text \<open>A world that answers the next requests as a finite script says and is offline
  after that, with nothing done so far.\<close>

definition scripted :: "fetch_outcome list \<Rightarrow> world" where
  "scripted outcomes =
     \<lparr>net = (\<lambda>n. if n < length outcomes then outcomes ! n
                  else Rejects (TypeError ''Network request failed'')),
      trace = []\<rparr>"

section \<open>The API service module\<close>

definition MULTI_AGENT_BASE_URL :: string where
  "MULTI_AGENT_BASE_URL = ''https://nokia-multi-agent.vercel.app''"

definition BACKEND_BASE_URL :: string where
  "BACKEND_BASE_URL = ''https://nokia-backend.vercel.app''"

text \<open>A plain \<^verbatim>\<open>fetch(url)\<close>: a GET without headers or body.\<close>

definition get_request :: "string \<Rightarrow> request" where
  "get_request u = \<lparr>url = u, req_method = GET, headers = [], body = None\<rparr>"

subsection \<open>Health checks\<close>

definition checkMultiAgentHealth :: "world \<Rightarrow> (js_error + bool) \<times> world" where
  "checkMultiAgentHealth w =
     (case fetch (get_request (MULTI_AGENT_BASE_URL @ ''/health'')) w of
        (Inr resp, w') \<Rightarrow> (Inr (ok resp), w')
      | (Inl error, w') \<Rightarrow> (Inr False, w'))"

definition checkBackendHealth :: "world \<Rightarrow> (js_error + bool) \<times> world" where
  "checkBackendHealth w =
     (case fetch (get_request (BACKEND_BASE_URL @ ''/'')) w of
        (Inr resp, w') \<Rightarrow> (Inr (ok resp), w')
      | (Inl error, w') \<Rightarrow> (Inr False, w'))"

subsection \<open>JavaScript conversions used by the module\<close>

text \<open>
  \<^verbatim>\<open>encodeURIComponent\<close> on a string given as its UTF-8 bytes: the unreserved characters
  stay, every other byte becomes \<^verbatim>\<open>%XX\<close> with upper-case hexadecimal digits.
\<close>

definition uri_unreserved :: "char \<Rightarrow> bool" where
  "uri_unreserved c \<longleftrightarrow>
     c \<in> set (''ABCDEFGHIJKLMNOPQRSTUVWXYZabcdefghijklmnopqrstuvwxyz0123456789-_.!~*()''
              @ [CHR 0x27])"

definition hex_digit :: "nat \<Rightarrow> char" where
  "hex_digit n = ''0123456789ABCDEF'' ! (n mod 16)"

definition percent_encode :: "char \<Rightarrow> string" where
  "percent_encode c =
     [CHR ''%'', hex_digit (of_char c div 16), hex_digit (of_char c mod 16)]"

definition encodeURIComponent :: "string \<Rightarrow> string" where
  "encodeURIComponent s =
     concat (map (\<lambda>c. if uri_unreserved c then [c] else percent_encode c) s)"

text \<open>Truthiness, as the operator \<^verbatim>\<open>||\<close> tests it.\<close>

fun truthy :: "json option \<Rightarrow> bool" where
  "truthy None = False"
| "truthy (Some JNull) = False"
| "truthy (Some (JBool b)) = b"
| "truthy (Some (JNum n)) = (n \<noteq> 0)"
| "truthy (Some (JStr s)) = (s \<noteq> [])"
| "truthy (Some (JArr vs)) = True"
| "truthy (Some (JObj kvs)) = True"

text \<open>
  The string conversion that \<^verbatim>\<open>new Error(v)\<close> applies to its argument: decimal digits
  for a number (as JavaScript prints the integers below \<open>10\<^sup>2\<^sup>1\<close>), the elements joined
  by commas for an array (\<^verbatim>\<open>null\<close> as the empty string), and \<^verbatim>\<open>[object Object]\<close> for an
  object.
\<close>

fun show_nat :: "nat \<Rightarrow> string" where
  "show_nat n =
     (if n < 10 then [''0123456789'' ! n]
      else show_nat (n div 10) @ [''0123456789'' ! (n mod 10)])"

definition show_int :: "int \<Rightarrow> string" where
  "show_int i = (if i < 0 then CHR ''-'' # show_nat (nat (- i)) else show_nat (nat i))"

fun join_comma :: "string list \<Rightarrow> string" where
  "join_comma [] = []"
| "join_comma [s] = s"
| "join_comma (s # t # ss) = s @ '','' @ join_comma (t # ss)"

fun to_string :: "json \<Rightarrow> string" where
  "to_string JNull = ''null''"
| "to_string (JBool b) = (if b then ''true'' else ''false'')"
| "to_string (JNum n) = show_int n"
| "to_string (JStr s) = s"
| "to_string (JArr vs) =
     join_comma (map (\<lambda>v. if v = JNull then [] else to_string v) vs)"
| "to_string (JObj kvs) = ''[object Object]''"

subsection \<open>analyzeQuery\<close>

definition analyze_request :: "string \<Rightarrow> request" where
  "analyze_request query =
     \<lparr>url = MULTI_AGENT_BASE_URL @ ''/analyze'',
      req_method = POST,
      headers = [(''Content-Type'', ''application/json'')],
      body = Some (JObj [(''query'', JStr query)])\<rparr>"

text \<open>
  The \<^verbatim>\<open>catch\<close> of \<open>analyzeQuery\<close> logs and rethrows, so every error of the body is
  the error of the call.
\<close>

definition analyzeQuery :: "string \<Rightarrow> world \<Rightarrow> (js_error + json) \<times> world" where
  "analyzeQuery query w =
     (case fetch (analyze_request query) w of
        (Inl error, w') \<Rightarrow> (Inl error, w')
      | (Inr resp, w') \<Rightarrow>
          if \<not> ok resp then
            (case body_json resp of
               Inl error \<Rightarrow> (Inl error, w')
             | Inr errorData \<Rightarrow>
                 (case get_prop errorData ''message'' of
                    Inl error \<Rightarrow> (Inl error, w')
                  | Inr message \<Rightarrow>
                      (Inl (Error (if truthy message then to_string (the message)
                                   else ''Failed to analyze query'')), w')))
          else (body_json resp, w'))"

subsection \<open>getStatus\<close>

definition status_request :: "string \<Rightarrow> request" where
  "status_request callId =
     get_request (BACKEND_BASE_URL @ ''/status?call_id='' @ encodeURIComponent callId)"

text \<open>
  What \<open>getStatus\<close> makes of the outcome of its request. Its \<^verbatim>\<open>catch\<close> logs and
  rethrows.
\<close>

definition status_of :: "fetch_outcome \<Rightarrow> js_error + json" where
  "status_of outcome =
     (case outcome of
        Rejects error \<Rightarrow> Inl error
      | Resolves resp \<Rightarrow>
          if \<not> ok resp then
            (if status resp = 404 then Inl (Error ''No records found for this call ID'')
             else Inl (Error ''Failed to fetch status''))
          else body_json resp)"

definition getStatus :: "string \<Rightarrow> world \<Rightarrow> (js_error + json) \<times> world" where
  "getStatus callId w =
     (case fetch (status_request callId) w of
        (Inl error, w') \<Rightarrow> (Inl error, w')
      | (Inr resp, w') \<Rightarrow>
          if \<not> ok resp then
            (if status resp = 404 then (Inl (Error ''No records found for this call ID''), w')
             else (Inl (Error ''Failed to fetch status''), w'))
          else (body_json resp, w'))"

subsection \<open>pollStatus\<close>

text \<open>
  The options of \<open>pollStatus\<close>, each present or absent. The number of attempts and the
  interval are JavaScript numbers, so \<^verbatim>\<open>Infinity\<close>, \<^verbatim>\<open>NaN\<close> and fractions are among
  them. The progress callback is given by what it does when called with an attempt number
  and \<open>maxAttempts\<close>: it comes back, or it throws.
\<close>

record poll_options =
  maxAttempts :: "js_number option"
  interval :: "js_number option"
  onProgress :: "(int \<Rightarrow> js_number \<Rightarrow> js_error + unit) option"

text \<open>
  The loop counter is a JavaScript number that starts at 1 and is incremented by
  \<^verbatim>\<open>attempt++\<close>. Its values are integers: the increment adds 1 exactly up to
  \<open>2\<^sup>5\<^sup>3\<close>, where the sum is rounded back to \<open>2\<^sup>5\<^sup>3\<close> and the counter no longer
  grows.
\<close>

definition increment :: "int \<Rightarrow> int" where
  "increment attempt = (if attempt < 2 ^ 53 then attempt + 1 else attempt)"

text \<open>
  The two tests of the loop compare the counter with \<open>maxAttempts\<close>:
  \<^verbatim>\<open>attempt <= maxAttempts\<close> and \<^verbatim>\<open>attempt === maxAttempts\<close>. Every comparison with
  \<^verbatim>\<open>NaN\<close> is false.
\<close>

fun js_le :: "int \<Rightarrow> js_number \<Rightarrow> bool" where
  "js_le a (Num q) \<longleftrightarrow> of_int a \<le> q"
| "js_le a PosInfinity \<longleftrightarrow> True"
| "js_le a NegInfinity \<longleftrightarrow> False"
| "js_le a NaN \<longleftrightarrow> False"

fun js_eq :: "int \<Rightarrow> js_number \<Rightarrow> bool" where
  "js_eq a (Num q) \<longleftrightarrow> of_int a = q"
| "js_eq a PosInfinity \<longleftrightarrow> False"
| "js_eq a NegInfinity \<longleftrightarrow> False"
| "js_eq a NaN \<longleftrightarrow> False"

text \<open>
  The test for meaningful data, with the short circuit of \<^verbatim>\<open>||\<close>: the second field is
  read only when the first is not a non-null object.
\<close>

definition non_null_object :: "json option \<Rightarrow> bool" where
  "non_null_object v \<longleftrightarrow> typeof v = ''object'' \<and> v \<noteq> Some JNull"

definition has_meaningful_data :: "json \<Rightarrow> js_error + bool" where
  "has_meaningful_data st =
     (case get_prop st ''emergency_details'' of
        Inl error \<Rightarrow> Inl error
      | Inr ed \<Rightarrow>
          if non_null_object ed then Inr True
          else (case get_prop st ''medical_record_details'' of
                  Inl error \<Rightarrow> Inl error
                | Inr md \<Rightarrow> Inr (non_null_object md)))"

text \<open>How a block of statements ends: by \<^verbatim>\<open>return\<close>, by \<^verbatim>\<open>throw\<close>, or by reaching its end.\<close>

datatype completion = Return json | Throw js_error | Normal

definition call_onProgress ::
  "(int \<Rightarrow> js_number \<Rightarrow> js_error + unit) option \<Rightarrow> int \<Rightarrow> js_number \<Rightarrow> world
   \<Rightarrow> (js_error + unit) \<times> world"
where
  "call_onProgress onP attempt maxA w =
     (case onP of
        None \<Rightarrow> (Inr (), w)
      | Some f \<Rightarrow> (f attempt maxA, emit (Progress attempt maxA) w))"

text \<open>The body of the \<^verbatim>\<open>try\<close> of one attempt.\<close>

definition try_block ::
  "string \<Rightarrow> js_number \<Rightarrow> (int \<Rightarrow> js_number \<Rightarrow> js_error + unit) option \<Rightarrow> int \<Rightarrow> world
   \<Rightarrow> completion \<times> world"
where
  "try_block callId maxA onP attempt w =
     (case call_onProgress onP attempt maxA w of
        (Inl error, w1) \<Rightarrow> (Throw error, w1)
      | (Inr u, w1) \<Rightarrow>
          (case getStatus callId w1 of
             (Inl error, w2) \<Rightarrow> (Throw error, w2)
           | (Inr st, w2) \<Rightarrow>
               (case has_meaningful_data st of
                  Inl error \<Rightarrow> (Throw error, w2)
                | Inr True \<Rightarrow> (Return st, w2)
                | Inr False \<Rightarrow> (Normal, w2))))"

text \<open>The \<^verbatim>\<open>try\<close> with its \<^verbatim>\<open>catch\<close>: an error is rethrown as a timeout when the counter
  equals \<open>maxAttempts\<close> and dropped otherwise.\<close>

definition try_catch ::
  "string \<Rightarrow> js_number \<Rightarrow> (int \<Rightarrow> js_number \<Rightarrow> js_error + unit) option \<Rightarrow> int \<Rightarrow> world
   \<Rightarrow> completion \<times> world"
where
  "try_catch callId maxA onP attempt w =
     (case try_block callId maxA onP attempt w of
        (Throw error, w1) \<Rightarrow>
          if js_eq attempt maxA
          then (Throw (Error ''Timeout: Data not available after maximum attempts''), w1)
          else (Normal, w1)
      | (c, w1) \<Rightarrow> (c, w1))"

text \<open>
  The \<^verbatim>\<open>for\<close> loop from the value \<open>attempt\<close> of its counter on, and the \<^verbatim>\<open>throw\<close> after
  it. The loop need not end (\<open>maxAttempts\<close> may be \<^verbatim>\<open>Infinity\<close>), so it is run for at
  most \<open>fuel\<close> tests of its condition: the result is \<open>None\<close> when the loop is still
  running after that many, and the world is then the world so far.
\<close>

fun pollLoop ::
  "nat \<Rightarrow> string \<Rightarrow> js_number \<Rightarrow> js_number \<Rightarrow> (int \<Rightarrow> js_number \<Rightarrow> js_error + unit) option
   \<Rightarrow> int \<Rightarrow> world \<Rightarrow> (js_error + json) option \<times> world"
where
  "pollLoop 0 callId maxA ival onP attempt w = (None, w)"
| "pollLoop (Suc fuel) callId maxA ival onP attempt w =
     (if js_le attempt maxA then
        (case try_catch callId maxA onP attempt w of
           (Return st, w1) \<Rightarrow> (Some (Inr st), w1)
         | (Throw error, w1) \<Rightarrow> (Some (Inl error), w1)
         | (Normal, w1) \<Rightarrow>
             pollLoop fuel callId maxA ival onP (increment attempt) (emit (SetTimeout ival) w1))
      else (Some (Inl (Error ''Timeout: Failed to get status after maximum attempts'')), w))"

text \<open>The defaults of the destructuring: 5 attempts, 2000 milliseconds.\<close>

abbreviation maxAttempts_of :: "poll_options \<Rightarrow> js_number" where
  "maxAttempts_of options \<equiv> (case maxAttempts options of None \<Rightarrow> Num 5 | Some m \<Rightarrow> m)"

abbreviation interval_of :: "poll_options \<Rightarrow> js_number" where
  "interval_of options \<equiv> (case interval options of None \<Rightarrow> Num 2000 | Some i \<Rightarrow> i)"

definition pollStatus ::
  "nat \<Rightarrow> string \<Rightarrow> poll_options \<Rightarrow> world \<Rightarrow> (js_error + json) option \<times> world"
where
  "pollStatus fuel callId options w =
     (let maxA = maxAttempts_of options;
          ival = interval_of options
      in pollLoop fuel callId maxA ival (onProgress options) 1 w)"

subsection \<open>Describing a run of pollStatus\<close>

text \<open>
  What the progress callback does at an attempt (nothing happens when none is supplied),
  and whether it comes back without throwing. The call sits inside the \<^verbatim>\<open>try\<close>, so a
  callback that throws ends the attempt before \<open>getStatus\<close> is called.
\<close>

definition progress_result ::
  "(int \<Rightarrow> js_number \<Rightarrow> js_error + unit) option \<Rightarrow> int \<Rightarrow> js_number \<Rightarrow> js_error + unit"
where
  "progress_result onP attempt maxA = (case onP of None \<Rightarrow> Inr () | Some f \<Rightarrow> f attempt maxA)"

definition progress_ok ::
  "(int \<Rightarrow> js_number \<Rightarrow> js_error + unit) option \<Rightarrow> int \<Rightarrow> js_number \<Rightarrow> bool"
where
  "progress_ok onP attempt maxA =
     (case progress_result onP attempt maxA of Inl error \<Rightarrow> False | Inr u \<Rightarrow> True)"

text \<open>
  What one attempt of the loop does, in order: the progress call when a callback is
  supplied, then the status request.
\<close>

definition attempt_events ::
  "string \<Rightarrow> js_number \<Rightarrow> (int \<Rightarrow> js_number \<Rightarrow> js_error + unit) option \<Rightarrow> int \<Rightarrow> event list"
where
  "attempt_events callId maxA onP attempt =
     (case onP of None \<Rightarrow> [] | Some f \<Rightarrow> [Progress attempt maxA]) @
     (if progress_ok onP attempt maxA then [Fetch (status_request callId)] else [])"

text \<open>
  The value of the counter at the \<open>i\<close>-th attempt of a run: \<open>i\<close> itself up to
  \<open>2\<^sup>5\<^sup>3\<close>, and \<open>2\<^sup>5\<^sup>3\<close> from there on.
\<close>

definition attempt_number :: "int \<Rightarrow> int" where
  "attempt_number i = min i (2 ^ 53)"

text \<open>
  \<open>k\<close> complete rounds from the \<open>a\<close>-th attempt on: each attempt, with the value
  of the counter as its number, followed by one timer of \<open>ival\<close> milliseconds.
\<close>

definition rounds ::
  "string \<Rightarrow> js_number \<Rightarrow> js_number \<Rightarrow> (int \<Rightarrow> js_number \<Rightarrow> js_error + unit) option
   \<Rightarrow> int \<Rightarrow> nat \<Rightarrow> event list"
where
  "rounds callId maxA ival onP a k =
     concat (map (\<lambda>i. attempt_events callId maxA onP (attempt_number i) @ [SetTimeout ival])
               [a..a + int k - 1])"

text \<open>
  How the \<^verbatim>\<open>try\<close> block ends on a result of \<open>getStatus\<close>: it throws the error of
  \<open>getStatus\<close> or of the test for data, returns a status with data, or reaches its end.
\<close>

definition judge :: "js_error + json \<Rightarrow> completion" where
  "judge r =
     (case r of
        Inl error \<Rightarrow> Throw error
      | Inr st \<Rightarrow>
          (case has_meaningful_data st of
             Inl error \<Rightarrow> Throw error
           | Inr True \<Rightarrow> Return st
           | Inr False \<Rightarrow> Normal))"

text \<open>
  In a run that starts with attempt \<open>a\<close> in world \<open>w\<close>, the attempts before
  \<open>t\<close> have made \<open>calls_from \<dots> a t\<close> status requests, so attempt \<open>t\<close>, when the run
  gets that far, reads that outcome of the network: \<open>outcome_from \<dots> w a t\<close> is how its
  \<^verbatim>\<open>try\<close> block then ends. Both are used for attempts up to \<open>2\<^sup>5\<^sup>3\<close> only, where
  the number of an attempt is its place in the run.
\<close>

definition calls_from ::
  "(int \<Rightarrow> js_number \<Rightarrow> js_error + unit) option \<Rightarrow> js_number \<Rightarrow> int \<Rightarrow> int \<Rightarrow> nat"
where
  "calls_from onP maxA a t = length (filter (\<lambda>u. progress_ok onP u maxA) [a..t - 1])"

definition outcome_from ::
  "(int \<Rightarrow> js_number \<Rightarrow> js_error + unit) option \<Rightarrow> js_number \<Rightarrow> world \<Rightarrow> int \<Rightarrow> int \<Rightarrow> completion"
where
  "outcome_from onP maxA w a t =
     (case progress_result onP t maxA of
        Inl error \<Rightarrow> Throw error
      | Inr u \<Rightarrow> judge (status_of (net w (calls_from onP maxA a t))))"

text \<open>
  An attempt finds data when its \<^verbatim>\<open>try\<close> block returns. It is quiet when the loop goes
  on after it: the block reached its end, or it threw and the counter is not
  \<open>maxAttempts\<close>.
\<close>

definition finds_data :: "completion \<Rightarrow> bool" where
  "finds_data c = (case c of Return st \<Rightarrow> True | Throw error \<Rightarrow> False | Normal \<Rightarrow> False)"

definition quiet :: "completion \<Rightarrow> int \<Rightarrow> js_number \<Rightarrow> bool" where
  "quiet c t maxA = (case c of Return st \<Rightarrow> False | Throw error \<Rightarrow> \<not> js_eq t maxA | Normal \<Rightarrow> True)"

text \<open>
  The number of the last attempt that the loop test lets through: the integer part of
  \<open>maxAttempts\<close>, and 0 (no attempt) for \<^verbatim>\<open>NaN\<close> and \<^verbatim>\<open>-Infinity\<close>. There is
  none for \<^verbatim>\<open>Infinity\<close> and for the numbers from \<open>2\<^sup>5\<^sup>3\<close>, which the counter
  never exceeds: the test then lets every attempt through.
\<close>

definition last_attempt :: "js_number \<Rightarrow> int option" where
  "last_attempt maxA =
     (case maxA of
        Num q \<Rightarrow> if q < 2 ^ 53 then Some \<lfloor>q\<rfloor> else None
      | PosInfinity \<Rightarrow> None
      | NegInfinity \<Rightarrow> Some 0
      | NaN \<Rightarrow> Some 0)"

text \<open>
  The world \<open>w\<close> after \<open>n\<close> more requests have been answered and the events
  \<open>evs\<close> have happened.
\<close>

definition advanced :: "world \<Rightarrow> nat \<Rightarrow> event list \<Rightarrow> world" where
  "advanced w n evs = \<lparr>net = (\<lambda>j. net w (j + n)), trace = trace w @ evs\<rparr>"

text \<open>
  A result of \<open>getStatus\<close> that carries meaningful data, and the number of status
  requests for \<open>callId\<close> that a world has seen.
\<close>

definition gives_data :: "js_error + json \<Rightarrow> bool" where
  "gives_data r = (case r of Inl error \<Rightarrow> False | Inr st \<Rightarrow> has_meaningful_data st = Inr True)"

definition status_calls :: "string \<Rightarrow> world \<Rightarrow> nat" where
  "status_calls callId w = length (filter (\<lambda>ev. ev = Fetch (status_request callId)) (trace w))"

text \<open>
  The number of \<open>getStatus\<close> calls that a run of \<open>pollStatus\<close> has made when it ends
  or its fuel is used up.
\<close>

definition calls_made :: "nat \<Rightarrow> string \<Rightarrow> poll_options \<Rightarrow> world \<Rightarrow> nat" where
  "calls_made fuel callId options w =
     status_calls callId (snd (pollStatus fuel callId options w)) - status_calls callId w"

text \<open>
  The promise of \<open>pollStatus\<close> never settles: however long the loop is run, it has
  neither returned nor thrown.
\<close>

definition never_settles :: "string \<Rightarrow> poll_options \<Rightarrow> world \<Rightarrow> bool" where
  "never_settles callId options w \<longleftrightarrow> (\<forall>fuel. fst (pollStatus fuel callId options w) = None)"

text \<open>
  What the proofs below carry through the loop: a run that has made \<open>k\<close> status
  requests saw no meaningful data in the first \<open>k - 1\<close>; when it returns, it returns the
  result of the last one, which is then the last thing it did; when it throws, it throws
  one of the two timeout errors; and when it throws or is still running, the last request
  had no data either.
\<close>

definition run_ok :: "string \<Rightarrow> world \<Rightarrow> (js_error + json) option \<times> world \<Rightarrow> nat \<Rightarrow> bool" where
  "run_ok callId w R k \<longleftrightarrow>
     status_calls callId (snd R) = status_calls callId w + k \<and>
     (\<forall>j. Suc j < k \<longrightarrow> \<not> gives_data (status_of (net w j))) \<and>
     (case fst R of
        None \<Rightarrow> 0 < k \<longrightarrow> \<not> gives_data (status_of (net w (k - 1)))
      | Some (Inr st) \<Rightarrow>
          0 < k \<and> status_of (net w (k - 1)) = Inr st \<and> has_meaningful_data st = Inr True \<and>
          last (trace (snd R)) = Fetch (status_request callId)
      | Some (Inl e) \<Rightarrow>
          (0 < k \<longrightarrow> \<not> gives_data (status_of (net w (k - 1)))) \<and>
          (e = Error ''Timeout: Data not available after maximum attempts'' \<or>
           e = Error ''Timeout: Failed to get status after maximum attempts''))"

text \<open>
  Telling requests from the other events, and the test a URL passes when it names the
  unencrypted \<^verbatim>\<open>http\<close> scheme.
\<close>

definition is_fetch :: "event \<Rightarrow> bool" where
  "is_fetch ev = (case ev of Fetch req \<Rightarrow> True | SetTimeout ms \<Rightarrow> False | Progress a m \<Rightarrow> False)"

definition plain_http :: "string \<Rightarrow> bool" where
  "plain_http u \<longleftrightarrow> take 7 u = ''http://''"

subsection \<open>Example inputs\<close>

text \<open>
  A backend that has no record yet, one that answers with a given body, the two
  placeholder strings of the status response, a status with a medical record, and some
  option values: none given, two attempts, three attempts with a callback that logs,
  \<^verbatim>\<open>NaN\<close>, \<^verbatim>\<open>Infinity\<close> and 2.5 attempts.
\<close>

definition no_records :: fetch_outcome where
  "no_records = Resolves \<lparr>ok = False, status = 404, body_json = Inr (JObj [])\<rparr>"

definition answers :: "json \<Rightarrow> fetch_outcome" where
  "answers v = Resolves \<lparr>ok = True, status = 200, body_json = Inr v\<rparr>"

definition placeholders :: json where
  "placeholders =
     JObj [(''call_id'', JStr ''CALL_1''),
           (''emergency_details'', JStr ''No emergency data''),
           (''medical_record_details'', JStr ''No medical record data'')]"

definition report_ready :: json where
  "report_ready =
     JObj [(''call_id'', JStr ''CALL_1''),
           (''emergency_details'', JStr ''No emergency data''),
           (''medical_record_details'',
              JObj [(''call_id'', JStr ''CALL_1''), (''chief_complaint'', JStr ''headache'')])]"

definition no_options :: poll_options where
  "no_options = \<lparr>maxAttempts = None, interval = None, onProgress = None\<rparr>"

definition two_attempts :: poll_options where
  "two_attempts = \<lparr>maxAttempts = Some (Num 2), interval = Some (Num 100), onProgress = None\<rparr>"

definition logging :: poll_options where
  "logging = \<lparr>maxAttempts = Some (Num 3), interval = None, onProgress = Some (\<lambda>attempt m. Inr ())\<rparr>"

definition no_attempts :: poll_options where
  "no_attempts = \<lparr>maxAttempts = Some NaN, interval = None, onProgress = None\<rparr>"

definition poll_forever :: poll_options where
  "poll_forever = \<lparr>maxAttempts = Some PosInfinity, interval = None, onProgress = None\<rparr>"

definition two_and_a_half :: poll_options where
  "two_and_a_half = \<lparr>maxAttempts = Some (Num (5 / 2)), interval = Some (Num 100), onProgress = None\<rparr>"

section \<open>The voice-consultation screen\<close>

text \<open>
  \<^verbatim>\<open>app/(tabs)/firstscreen.tsx\<close> keeps the conversation twice, in the state variable
  \<^verbatim>\<open>transcript\<close> and in the ref \<^verbatim>\<open>transcriptRef\<close>. The text of an entry is whatever the
  message carried, \<^verbatim>\<open>undefined\<close> included.
\<close>

record transcript_entry =
  speaker :: string
  text_of :: "json option"

record voice_screen =
  transcript :: "transcript_entry list"
  transcriptRef :: "transcript_entry list"

text \<open>
  The listener of the Vapi \<^verbatim>\<open>message\<close> event. The operator \<^verbatim>\<open>&&\<close> reads
  \<^verbatim>\<open>transcriptType\<close> only when the type is \<^verbatim>\<open>transcript\<close>, and the state update is the
  functional one, \<^verbatim>\<open>prev => [...prev, newMessage]\<close>. The branch for
  \<^verbatim>\<open>conversation-update\<close> only logs. A listener that throws has changed nothing.
\<close>

definition on_message :: "json \<Rightarrow> voice_screen \<Rightarrow> js_error + voice_screen" where
  "on_message message s =
     (case get_prop message ''type'' of
        Inl error \<Rightarrow> Inl error
      | Inr ty \<Rightarrow>
          if ty \<noteq> Some (JStr ''transcript'') then Inr s
          else
            (case get_prop message ''transcriptType'' of
               Inl error \<Rightarrow> Inl error
             | Inr tt \<Rightarrow>
                 if tt \<noteq> Some (JStr ''final'') then Inr s
                 else
                   (case get_prop message ''role'' of
                      Inl error \<Rightarrow> Inl error
                    | Inr role \<Rightarrow>
                        (case get_prop message ''transcript'' of
                           Inl error \<Rightarrow> Inl error
                         | Inr tr \<Rightarrow>
                             let newMessage =
                               \<lparr>speaker = (if role = Some (JStr ''assistant'') then ''doctor''
                                           else ''patient''),
                                text_of = tr\<rparr>
                             in Inr (s\<lparr>transcriptRef := transcriptRef s @ [newMessage],
                                      transcript := transcript s @ [newMessage]\<rparr>)))))"

definition final_transcript :: "json \<Rightarrow> bool" where
  "final_transcript message \<longleftrightarrow>
     get_prop message ''type'' = Inr (Some (JStr ''transcript'')) \<and>
     get_prop message ''transcriptType'' = Inr (Some (JStr ''final''))"

definition patient_says :: json where
  "patient_says =
     JObj [(''type'', JStr ''transcript''), (''transcriptType'', JStr ''final''),
           (''role'', JStr ''user''), (''transcript'', JStr ''I have a headache'')]"

definition partial_words :: json where
  "partial_words =
     JObj [(''type'', JStr ''transcript''), (''transcriptType'', JStr ''partial''),
           (''role'', JStr ''user''), (''transcript'', JStr ''I have'')]"

section \<open>The video-call screen\<close>

text \<open>
  \<^verbatim>\<open>app/(tabs)/videocall.tsx\<close> is a function component. Its state variables are constants
  of one run of the component function (one render), set for the next render by their
  setters; its handlers are closures made in the same run, so a handler reads the state
  variables of the render that made it. Its refs, and the media objects it holds, are
  shared by all renders and change in place.
\<close>

datatype facing = User | Environment

datatype track_kind = Audio | Video

record track =
  kind :: track_kind
  enabled :: bool
  stopped :: bool

text \<open>A media stream is the list of its tracks, each an index into the table of all
  tracks.\<close>

type_synonym stream = "nat list"

text \<open>The state variables of the component.\<close>

record vc_state =
  localStream :: "stream option"
  remoteStream :: "stream option"
  peerId :: string
  remotePeerId :: string
  isCalling :: bool
  isCallActive :: bool
  isMuted :: bool
  isVideoOff :: bool
  isSpeakerOn :: bool
  facingMode :: facing
  callDuration :: nat
  peerReady :: bool
  isProcessing :: bool

text \<open>
  A media connection of the peer library: the peer called, the tracks of the senders of
  its peer connection when it has one (\<open>None\<close> for a sender without a track), and the
  render whose \<open>startCall\<close> registered the listeners of the connection.
\<close>

record media_call =
  peer :: string
  peerConnection :: "nat option list option"
  listeners :: vc_state

text \<open>
  Calls into libraries that leave no trace in the component: \<^verbatim>\<open>close\<close> on a connection,
  an alert, and the start of the analysis of the call. The events that a library fires in
  answer are steps of their own, listed with the listeners below.
\<close>

datatype effect = CallClosed string | Alert string string | AnalysisStarted

text \<open>The component between two events: the state variables as last set, the refs, the
  table of tracks and the library calls made so far.\<close>

record videocall =
  state :: vc_state
  peerInstance :: bool
  currentCall :: "media_call option"
  callStartTime :: "nat option"
  tracks :: "nat \<Rightarrow> track"
  effects :: "effect list"

definition getAudioTracks :: "(nat \<Rightarrow> track) \<Rightarrow> stream \<Rightarrow> nat list" where
  "getAudioTracks tr strm = filter (\<lambda>t. kind (tr t) = Audio) strm"

definition getVideoTracks :: "(nat \<Rightarrow> track) \<Rightarrow> stream \<Rightarrow> nat list" where
  "getVideoTracks tr strm = filter (\<lambda>t. kind (tr t) = Video) strm"

text \<open>The element \<^verbatim>\<open>xs[0]\<close>, \<^verbatim>\<open>undefined\<close> for an empty array.\<close>

fun first :: "'a list \<Rightarrow> 'a option" where
  "first [] = None"
| "first (x # xs) = Some x"

definition stop_track :: "nat \<Rightarrow> (nat \<Rightarrow> track) \<Rightarrow> (nat \<Rightarrow> track)" where
  "stop_track t tr = tr(t := (tr t)\<lparr>stopped := True\<rparr>)"

definition alert :: "string \<Rightarrow> string \<Rightarrow> videocall \<Rightarrow> videocall" where
  "alert title message s = s\<lparr>effects := effects s @ [Alert title message]\<rparr>"

text \<open>
  \<open>handleCallAnalysis\<close> up to its first \<^verbatim>\<open>await\<close>: the part that runs inside the caller.
  What follows the \<^verbatim>\<open>await\<close> runs after the caller has returned.
\<close>

definition handleCallAnalysis :: "videocall \<Rightarrow> videocall" where
  "handleCallAnalysis s =
     s\<lparr>state := (state s)\<lparr>isProcessing := True\<rparr>, effects := effects s @ [AnalysisStarted]\<rparr>"

text \<open>
  \<open>endCall\<close> as made by render \<open>r\<close>: \<^verbatim>\<open>localStream\<close> is the constant of that render, the
  refs are read where they are now.
\<close>

definition endCall :: "vc_state \<Rightarrow> videocall \<Rightarrow> videocall" where
  "endCall r s =
     (let shouldAnalyze = (callStartTime s \<noteq> None);
          s1 = (case currentCall s of
                  None \<Rightarrow> s
                | Some c \<Rightarrow> s\<lparr>effects := effects s @ [CallClosed (peer c)], currentCall := None\<rparr>);
          s2 = (case localStream r of
                  None \<Rightarrow> s1
                | Some strm \<Rightarrow>
                    s1\<lparr>tracks := fold stop_track strm (tracks s1),
                       state := (state s1)\<lparr>localStream := None\<rparr>\<rparr>);
          s3 = s2\<lparr>state := (state s2)\<lparr>remoteStream := None, isCallActive := False,
                     isCalling := False, isMuted := False, isVideoOff := False\<rparr>\<rparr>
      in if shouldAnalyze then handleCallAnalysis s3 else s3)"

definition toggleMute :: "vc_state \<Rightarrow> videocall \<Rightarrow> videocall" where
  "toggleMute r s =
     (case localStream r of
        None \<Rightarrow> s
      | Some strm \<Rightarrow>
          (case first (getAudioTracks (tracks s) strm) of
             None \<Rightarrow> s
           | Some audioTrack \<Rightarrow>
               let tr = (tracks s)(audioTrack :=
                          (tracks s audioTrack)\<lparr>enabled := \<not> enabled (tracks s audioTrack)\<rparr>)
               in s\<lparr>tracks := tr, state := (state s)\<lparr>isMuted := \<not> enabled (tr audioTrack)\<rparr>\<rparr>))"

text \<open>The index of the first element that satisfies a test, as \<^verbatim>\<open>find\<close> looks for it.\<close>

fun find_index :: "('a \<Rightarrow> bool) \<Rightarrow> 'a list \<Rightarrow> nat option" where
  "find_index P [] = None"
| "find_index P (x # xs) =
     (if P x then Some 0 else map_option Suc (find_index P xs))"

text \<open>The test \<^verbatim>\<open>s.track?.kind === 'video'\<close> on a sender.\<close>

definition sends_video :: "(nat \<Rightarrow> track) \<Rightarrow> nat option \<Rightarrow> bool" where
  "sends_video tr sender = (case sender of None \<Rightarrow> False | Some t \<Rightarrow> kind (tr t) = Video)"

text \<open>
  The replacement of the track in the peer connection. \<open>replaceTrack\<close> is the
  library's: \<open>rejected\<close> is the error it rejects with when it does, and then the sender
  keeps its track.
\<close>

definition replace_video ::
  "stream \<Rightarrow> js_error option \<Rightarrow> videocall \<Rightarrow> js_error + videocall"
where
  "replace_video newStream rejected s =
     (case currentCall s of
        None \<Rightarrow> Inr s
      | Some c \<Rightarrow>
          (case peerConnection c of
             None \<Rightarrow> Inr s
           | Some senders \<Rightarrow>
               (case find_index (sends_video (tracks s)) senders of
                  None \<Rightarrow> Inr s
                | Some i \<Rightarrow>
                    (case rejected of
                       Some error \<Rightarrow> Inl error
                     | None \<Rightarrow>
                         Inr (s\<lparr>currentCall := Some (c\<lparr>peerConnection :=
                                  Some (senders[i := first (getVideoTracks (tracks s) newStream)])\<rparr>)\<rparr>)))))"

text \<open>
  \<open>flipCamera\<close> as made by render \<open>r\<close>. \<open>media\<close> is what \<^verbatim>\<open>getUserMedia\<close> gives, an
  error or the new stream. The two \<^verbatim>\<open>await\<close>s are taken in one step: no other handler
  runs in between.
\<close>

definition flipCamera ::
  "vc_state \<Rightarrow> (js_error + stream) \<Rightarrow> js_error option \<Rightarrow> videocall \<Rightarrow> videocall"
where
  "flipCamera r media rejected s =
     (case localStream r of
        None \<Rightarrow> s
      | Some strm \<Rightarrow>
          let s1 = (case first (getVideoTracks (tracks s) strm) of
                      None \<Rightarrow> s
                    | Some videoTrack \<Rightarrow> s\<lparr>tracks := stop_track videoTrack (tracks s)\<rparr>);
              newFacingMode = (if facingMode r = User then Environment else User)
          in case media of
               Inl error \<Rightarrow> alert ''Error'' ''Could not flip camera'' s1
             | Inr newStream \<Rightarrow>
                 (case replace_video newStream rejected s1 of
                    Inl error \<Rightarrow> alert ''Error'' ''Could not flip camera'' s1
                  | Inr s2 \<Rightarrow>
                      s2\<lparr>state := (state s2)\<lparr>localStream := Some newStream,
                                               facingMode := newFacingMode\<rparr>\<rparr>))"

text \<open>
  A button of the screen is wired to the handler of the render on display, so a press
  runs the handler with the state variables as they are.
\<close>

definition press :: "(vc_state \<Rightarrow> videocall \<Rightarrow> videocall) \<Rightarrow> videocall \<Rightarrow> videocall" where
  "press handler s = handler (state s) s"

text \<open>
  What the claim about \<open>flipCamera\<close> speaks of: the senders with the track of the first
  video sender replaced, and a press of the flip button when \<^verbatim>\<open>getUserMedia\<close> gives
  \<open>newStream\<close> and \<open>replaceTrack\<close> resolves.
\<close>

definition swap_video :: "(nat \<Rightarrow> track) \<Rightarrow> nat option \<Rightarrow> nat option list \<Rightarrow> nat option list" where
  "swap_video tr newTrack senders =
     (case find_index (sends_video tr) senders of
        None \<Rightarrow> senders
      | Some i \<Rightarrow> senders[i := newTrack])"

definition flipped :: "stream \<Rightarrow> videocall \<Rightarrow> videocall" where
  "flipped newStream s = press (\<lambda>r. flipCamera r (Inr newStream) None) s"

subsection \<open>Starting a call and the listeners of the connection\<close>

definition startLocalStream :: "(js_error + stream) \<Rightarrow> videocall \<Rightarrow> (js_error + stream) \<times> videocall" where
  "startLocalStream media s =
     (case media of
        Inl error \<Rightarrow> (Inl error, alert ''Error'' ''Could not access camera/microphone'' s)
      | Inr strm \<Rightarrow> (Inr strm, s\<lparr>state := (state s)\<lparr>localStream := Some strm\<rparr>\<rparr>))"

text \<open>The test \<^verbatim>\<open>!remotePeerId.trim()\<close> on a string of ASCII characters.\<close>

definition blank :: "string \<Rightarrow> bool" where
  "blank s \<longleftrightarrow> (\<forall>c \<in> set s. c \<in> set [CHR 0x09, CHR 0x0A, CHR 0x0B, CHR 0x0C, CHR 0x0D, CHR 0x20])"

text \<open>
  \<open>startCall\<close> as made by render \<open>r\<close>. \<open>placed\<close> is what the peer library's \<^verbatim>\<open>call\<close>
  returns: nothing, or a connection with or without a peer connection. The listeners it
  registers are closures of this run of \<open>startCall\<close>, so of render \<open>r\<close>.
\<close>

definition startCall ::
  "vc_state \<Rightarrow> (js_error + stream) \<Rightarrow> nat option list option option \<Rightarrow> videocall \<Rightarrow> videocall"
where
  "startCall r media placed s =
     (if blank (remotePeerId r) then alert ''Error'' ''Please enter a peer ID to call'' s
      else if \<not> peerReady r \<or> \<not> peerInstance s then alert ''Error'' ''Peer connection not ready'' s
      else
        (case startLocalStream media (s\<lparr>state := (state s)\<lparr>isCalling := True\<rparr>\<rparr>) of
           (Inl error, s1) \<Rightarrow>
             (alert ''Error'' ''Failed to start call'' s1)
               \<lparr>state := (state s1)\<lparr>isCalling := False\<rparr>\<rparr>
         | (Inr strm, s1) \<Rightarrow>
             (case placed of
                None \<Rightarrow>
                  (alert ''Error'' ''Failed to start call'' s1)
                    \<lparr>state := (state s1)\<lparr>isCalling := False\<rparr>\<rparr>
              | Some pc \<Rightarrow>
                  s1\<lparr>currentCall :=
                       Some \<lparr>peer = remotePeerId r, peerConnection = pc, listeners = r\<rparr>\<rparr>)))"

text \<open>The listener of \<^verbatim>\<open>stream\<close>, with the remote stream and the time of the event, and the
  listener of \<^verbatim>\<open>close\<close>, both as registered by render \<open>r\<close>.\<close>

definition on_stream :: "vc_state \<Rightarrow> stream \<Rightarrow> nat \<Rightarrow> videocall \<Rightarrow> videocall" where
  "on_stream r remote now s =
     s\<lparr>state := (state s)\<lparr>remoteStream := Some remote, isCallActive := True, isCalling := False\<rparr>,
       callStartTime := Some now\<rparr>"

definition on_close :: "vc_state \<Rightarrow> videocall \<Rightarrow> videocall" where
  "on_close r s = endCall r s"

subsection \<open>Example inputs\<close>

text \<open>A table of live tracks, the even ones audio and the odd ones video, and the
  screen as it is first shown, with a peer id typed in and the peer ready.\<close>

definition device :: "nat \<Rightarrow> track" where
  "device t = \<lparr>kind = (if even t then Audio else Video), enabled = True, stopped = False\<rparr>"

definition setup_screen :: videocall where
  "setup_screen =
     \<lparr>state = \<lparr>localStream = None, remoteStream = None, peerId = ''patient-7'',
               remotePeerId = ''doctor-42'', isCalling = False, isCallActive = False,
               isMuted = False, isVideoOff = False, isSpeakerOn = True, facingMode = User,
               callDuration = 0, peerReady = True, isProcessing = False\<rparr>,
      peerInstance = True, currentCall = None, callStartTime = None,
      tracks = device, effects = []\<rparr>"

text \<open>The call is started from the setup screen and the remote stream arrives.\<close>

definition calling :: videocall where
  "calling = startCall (state setup_screen) (Inr [0, 1]) (Some (Some [Some 0, Some 1])) setup_screen"

definition in_call :: videocall where
  "in_call =
     (case currentCall calling of
        None \<Rightarrow> calling
      | Some c \<Rightarrow> on_stream (listeners c) [2, 3] 1000 calling)"

text \<open>The other side hangs up: the library fires \<^verbatim>\<open>close\<close> on the connection.\<close>

definition hung_up :: videocall where
  "hung_up =
     (case currentCall in_call of
        None \<Rightarrow> in_call
      | Some c \<Rightarrow> on_close (listeners c) in_call)"

section \<open>Properties of the API service module\<close>

declare pollLoop.simps [simp del]

subsection \<open>One request, one attempt\<close>

lemma trace_emit [simp]: "trace (emit ev w) = trace w @ [ev]"
  by (simp add: emit_def)

lemma net_emit [simp]: "net (emit ev w) = net w"
  by (simp add: emit_def)

lemma trace_served [simp]: "trace (served req w) = trace w @ [Fetch req]"
  by (simp add: served_def emit_def)

lemma net_served [simp]: "net (served req w) = (\<lambda>n. net w (Suc n))"
  by (simp add: served_def emit_def)

lemma getStatus_eq:
  "getStatus callId w = (status_of (net w 0), served (status_request callId) w)"
  by (simp add: getStatus_def status_of_def fetch_def split: fetch_outcome.split)

lemma fst_try_block:
  "fst (try_block callId maxA onP a w) =
     (case progress_result onP a maxA of
        Inl error \<Rightarrow> Throw error
      | Inr u \<Rightarrow> judge (status_of (net w 0)))"
  by (auto simp: try_block_def call_onProgress_def progress_result_def getStatus_eq judge_def
      split: option.splits sum.splits bool.splits)

lemma trace_try_block:
  "trace (snd (try_block callId maxA onP a w)) = trace w @ attempt_events callId maxA onP a"
  by (auto simp: try_block_def call_onProgress_def progress_result_def progress_ok_def
      getStatus_eq attempt_events_def split: option.splits sum.splits bool.splits)

lemma net_try_block:
  "net (snd (try_block callId maxA onP a w)) =
     (\<lambda>n. net w (n + (if progress_ok onP a maxA then 1 else 0)))"
  by (auto simp: try_block_def call_onProgress_def progress_result_def progress_ok_def
      getStatus_eq split: option.splits sum.splits bool.splits)

lemma snd_try_catch: "snd (try_catch callId maxA onP a w) = snd (try_block callId maxA onP a w)"
  by (simp add: try_catch_def split: prod.splits completion.splits)

lemma fst_try_catch:
  "fst (try_catch callId maxA onP a w) =
     (case fst (try_block callId maxA onP a w) of
        Throw e \<Rightarrow> if js_eq a maxA then Throw (Error ''Timeout: Data not available after maximum attempts'') else Normal
      | c \<Rightarrow> c)"
  by (simp add: try_catch_def split: prod.splits completion.splits)

lemma try_block_Return:
  "fst (try_block callId maxA onP a w) = Return st \<Longrightarrow>
     progress_ok onP a maxA \<and> status_of (net w 0) = Inr st \<and> has_meaningful_data st = Inr True"
  by (auto simp: fst_try_block progress_ok_def judge_def split: sum.splits bool.splits)

lemma try_block_no_data:
  "progress_ok onP a maxA \<Longrightarrow> \<forall>st. fst (try_block callId maxA onP a w) \<noteq> Return st \<Longrightarrow>
     \<not> gives_data (status_of (net w 0))"
  by (auto simp: fst_try_block progress_ok_def judge_def gives_data_def split: sum.splits bool.splits)

lemma try_catch_Return:
  "fst (try_catch callId maxA onP a w) = Return st \<longleftrightarrow> fst (try_block callId maxA onP a w) = Return st"
  by (simp add: fst_try_catch split: completion.splits)

lemma try_catch_Throw:
  "fst (try_catch callId maxA onP a w) = Throw e \<Longrightarrow>
     js_eq a maxA \<and> e = Error ''Timeout: Data not available after maximum attempts'' \<and>
     (\<exists>e'. fst (try_block callId maxA onP a w) = Throw e')"
  by (auto simp: fst_try_catch split: completion.splits if_splits)

lemma try_catch_Normal:
  "fst (try_catch callId maxA onP a w) = Normal \<Longrightarrow>
     \<forall>st. fst (try_block callId maxA onP a w) \<noteq> Return st"
  by (auto simp: fst_try_catch split: completion.splits if_splits)

lemma last_trace_Return:
  assumes "fst (try_block callId maxA onP a w) = Return st"
  shows "last (trace (snd (try_block callId maxA onP a w))) = Fetch (status_request callId)"
proof -
  from try_block_Return [OF assms] have "progress_ok onP a maxA" by simp
  then show ?thesis by (simp add: trace_try_block attempt_events_def)
qed

lemma calls_attempt:
  "length (filter (\<lambda>ev. ev = Fetch (status_request callId)) (attempt_events callId maxA onP a)) =
     (if progress_ok onP a maxA then 1 else 0)"
  by (simp add: attempt_events_def split: option.splits)

lemma status_calls_try_block:
  "status_calls callId (snd (try_block callId maxA onP a w)) =
     status_calls callId w + (if progress_ok onP a maxA then 1 else 0)"
  by (simp add: status_calls_def trace_try_block calls_attempt)

lemma status_calls_emit_timeout [simp]:
  "status_calls callId (emit (SetTimeout ival) w) = status_calls callId w"
  by (simp add: status_calls_def)

lemma filter_fetch_attempt:
  "filter is_fetch (attempt_events callId maxA onP a) =
     replicate (if progress_ok onP a maxA then 1 else 0) (Fetch (status_request callId))"
  by (simp add: attempt_events_def is_fetch_def split: option.splits)

lemma increment_small: "a < 2 ^ 53 \<Longrightarrow> increment a = a + 1"
  by (simp add: increment_def)

lemma increment_number: "increment (attempt_number i) = attempt_number (i + 1)"
  by (simp add: increment_def attempt_number_def)

lemma attempt_number_small: "i \<le> 2 ^ 53 \<Longrightarrow> attempt_number i = i"
  by (simp add: attempt_number_def)

lemma attempt_number_1 [simp]: "attempt_number 1 = 1"
  by (simp add: attempt_number_def)

lemma advanced_0 [simp]: "advanced w 0 [] = w"
  by (simp add: advanced_def)

lemma net_advanced [simp]: "net (advanced w n evs) = (\<lambda>j. net w (j + n))"
  by (simp add: advanced_def)

lemma trace_advanced [simp]: "trace (advanced w n evs) = trace w @ evs"
  by (simp add: advanced_def)

lemma advanced_advanced: "advanced (advanced w n xs) m ys = advanced w (m + n) (xs @ ys)"
  by (simp add: advanced_def add.assoc)

lemma emit_advanced: "emit ev (advanced w n xs) = advanced w n (xs @ [ev])"
  by (simp add: advanced_def emit_def)

lemma snd_try_block:
  "snd (try_block callId maxA onP a w) =
     advanced w (if progress_ok onP a maxA then 1 else 0) (attempt_events callId maxA onP a)"
  by (rule world.equality) (simp_all add: trace_try_block net_try_block)

subsection \<open>The loop test and the attempts before an attempt\<close>

lemma last_attempt_small: "last_attempt maxA = Some m \<Longrightarrow> m < 2 ^ 53"
  by (cases maxA) (auto simp: last_attempt_def floor_less_iff split: if_splits)

lemma js_le_last:
  "last_attempt maxA = Some m \<Longrightarrow> 1 \<le> a \<Longrightarrow> js_le a maxA \<longleftrightarrow> a \<le> m"
  by (cases maxA) (auto simp: last_attempt_def le_floor_iff split: if_splits)

lemma js_le_mono: "js_le b maxA \<Longrightarrow> a \<le> b \<Longrightarrow> js_le a maxA"
  by (cases maxA) (auto elim: order_trans [rotated])

lemma js_eq_le: "js_eq a maxA \<Longrightarrow> js_le b maxA \<Longrightarrow> b \<le> a"
  by (cases maxA) auto

lemma ran_out_last:
  assumes "\<not> js_le (attempt_number (1 + int k)) maxA"
    and "k = 0 \<or> js_le (attempt_number (int k)) maxA"
  shows "\<exists>m. last_attempt maxA = Some m \<and> int k = max 0 m"
proof (cases maxA)
  case (Num q)
  have le: "of_int (attempt_number j) \<le> (2 ^ 53 :: rat)" for j
  proof -
    have "attempt_number j \<le> 2 ^ 53" by (simp add: attempt_number_def)
    then have "(of_int (attempt_number j) :: rat) \<le> of_int (2 ^ 53)" by (rule of_int_le_iff [THEN iffD2])
    then show ?thesis by simp
  qed
  from assms(1) Num have lt: "q < of_int (attempt_number (1 + int k))" by simp
  with le [of "1 + int k"] have q: "q < 2 ^ 53" by simp
  have "\<lfloor>q\<rfloor> < 1 + int k"
  proof -
    from lt have "\<lfloor>q\<rfloor> < attempt_number (1 + int k)" by (simp add: floor_less_iff)
    then show ?thesis by (simp add: attempt_number_def)
  qed
  moreover have "k = 0 \<or> int k \<le> \<lfloor>q\<rfloor>"
  proof (cases "k = 0")
    case False
    with assms(2) Num have "of_int (attempt_number (int k)) \<le> q" by simp
    then have "attempt_number (int k) \<le> \<lfloor>q\<rfloor>" by (simp add: le_floor_iff)
    moreover from q have "\<lfloor>q\<rfloor> < 2 ^ 53" by (simp add: floor_less_iff)
    ultimately show ?thesis by (simp add: attempt_number_def min_def split: if_splits)
  qed simp
  ultimately have "int k = max 0 \<lfloor>q\<rfloor>" by auto
  with Num q show ?thesis by (simp add: last_attempt_def)
qed (use assms in \<open>auto simp: last_attempt_def\<close>)

lemma rounds_0 [simp]: "rounds callId maxA ival onP a 0 = []"
  by (simp add: rounds_def)

lemma rounds_Suc:
  "rounds callId maxA ival onP a (Suc k) =
     attempt_events callId maxA onP (attempt_number a) @ [SetTimeout ival] @
     rounds callId maxA ival onP (a + 1) k"
proof -
  have "[a..a + int (Suc k) - 1] = a # [a + 1..a + 1 + int k - 1]"
    by (subst upto_rec1) simp_all
  then show ?thesis by (simp add: rounds_def)
qed

lemma calls_from_same [simp]: "calls_from onP maxA a a = 0"
  by (simp add: calls_from_def)

lemma calls_from_rec:
  "a < t \<Longrightarrow> calls_from onP maxA a t =
     (if progress_ok onP a maxA then 1 else 0) + calls_from onP maxA (a + 1) t"
  by (simp add: calls_from_def upto_rec1 [of a "t - 1"])

lemma calls_from_step:
  "a \<le> t \<Longrightarrow> calls_from onP maxA a (t + 1) =
     calls_from onP maxA a t + (if progress_ok onP t maxA then 1 else 0)"
  by (simp add: calls_from_def upto_rec2 [of a t])

lemma outcome_from_advanced:
  "outcome_from onP maxA (advanced w n evs) a t =
     (case progress_result onP t maxA of
        Inl error \<Rightarrow> Throw error
      | Inr u \<Rightarrow> judge (status_of (net w (calls_from onP maxA a t + n))))"
  by (simp add: outcome_from_def split: sum.splits)

lemma outcome_from_start:
  "fst (try_block callId maxA onP a w) = outcome_from onP maxA w a a"
  by (simp add: fst_try_block outcome_from_def split: sum.splits)

lemma outcome_from_reached:
  "fst (try_block callId maxA onP t (advanced w (calls_from onP maxA a t) evs)) =
     outcome_from onP maxA w a t"
  by (simp add: fst_try_block outcome_from_def split: sum.splits)

lemma outcome_from_shift:
  "a < t \<Longrightarrow>
   outcome_from onP maxA (advanced w (if progress_ok onP a maxA then 1 else 0) evs) (a + 1) t =
     outcome_from onP maxA w a t"
proof -
  assume "a < t"
  from calls_from_rec [OF this, of onP maxA]
  have "calls_from onP maxA (a + 1) t + (if progress_ok onP a maxA then 1 else 0) =
      calls_from onP maxA a t"
    by simp
  then show ?thesis
    by (cases "progress_ok onP a maxA")
      (auto simp: outcome_from_advanced outcome_from_def split: sum.splits)
qed

lemma quiet_Normal:
  "quiet (fst (try_block callId maxA onP a w)) a maxA \<Longrightarrow>
     fst (try_catch callId maxA onP a w) = Normal"
  by (simp add: quiet_def fst_try_catch split: completion.splits)

lemma not_found_quiet:
  assumes "js_le i maxA" and "t < i" and "\<not> finds_data c"
  shows "js_le t maxA \<and> quiet c t maxA"
proof -
  from assms(1,2) have "js_le t maxA" by (auto intro: js_le_mono)
  moreover have "\<not> js_eq t maxA"
    using js_eq_le [of t maxA i] assms(1,2) by auto
  ultimately show ?thesis using assms(3)
    by (cases c) (simp_all add: quiet_def finds_data_def)
qed

subsection \<open>The loop\<close>

lemma pollLoop_Suc:
  "pollLoop (Suc fuel) callId maxA ival onP a w =
     (if js_le a maxA then
        (case fst (try_catch callId maxA onP a w) of
           Return st \<Rightarrow> (Some (Inr st), snd (try_block callId maxA onP a w))
         | Throw e \<Rightarrow> (Some (Inl e), snd (try_block callId maxA onP a w))
         | Normal \<Rightarrow> pollLoop fuel callId maxA ival onP (increment a)
                      (emit (SetTimeout ival) (snd (try_block callId maxA onP a w))))
      else (Some (Inl (Error ''Timeout: Failed to get status after maximum attempts'')), w))"
  by (simp add: pollLoop.simps snd_try_catch [symmetric] split: prod.splits completion.splits)

lemma pollLoop_trace:
  "\<exists>k. (fst (pollLoop fuel callId maxA ival onP (attempt_number a) w) = None \<and> k = fuel \<and>
          trace (snd (pollLoop fuel callId maxA ival onP (attempt_number a) w)) =
            trace w @ rounds callId maxA ival onP a k)
     \<or> ((\<exists>r. fst (pollLoop fuel callId maxA ival onP (attempt_number a) w) = Some r) \<and>
          (k = 0 \<or> js_le (attempt_number (a + int k - 1)) maxA) \<and> \<not> js_le (attempt_number (a + int k)) maxA \<and>
          trace (snd (pollLoop fuel callId maxA ival onP (attempt_number a) w)) =
            trace w @ rounds callId maxA ival onP a k)
     \<or> ((\<exists>r. fst (pollLoop fuel callId maxA ival onP (attempt_number a) w) = Some r) \<and>
          js_le (attempt_number (a + int k)) maxA \<and>
          trace (snd (pollLoop fuel callId maxA ival onP (attempt_number a) w)) =
            trace w @ rounds callId maxA ival onP a k @ attempt_events callId maxA onP (attempt_number (a + int k)))"
  (is "\<exists>k. ?shape fuel a w k")
proof (induction fuel arbitrary: a w)
  case 0
  have "?shape 0 a w 0" by (simp add: pollLoop.simps)
  then show ?case by blast
next
  case (Suc fuel)
  show ?case
  proof (cases "js_le (attempt_number a) maxA")
    case False
    then have "?shape (Suc fuel) a w 0" by (simp add: pollLoop_Suc)
    then show ?thesis by blast
  next
    case le: True
    show ?thesis
    proof (cases "fst (try_catch callId maxA onP (attempt_number a) w) = Normal")
      case False
      with le have "?shape (Suc fuel) a w 0"
        by (auto simp: pollLoop_Suc trace_try_block split: completion.splits)
      then show ?thesis by blast
    next
      case True
      let ?w2 = "emit (SetTimeout ival) (snd (try_block callId maxA onP (attempt_number a) w))"
      have eq: "pollLoop (Suc fuel) callId maxA ival onP (attempt_number a) w = pollLoop fuel callId maxA ival onP (attempt_number (a + 1)) ?w2"
        using le True by (simp add: pollLoop_Suc increment_number)
      have tr: "trace ?w2 = trace w @ attempt_events callId maxA onP (attempt_number a) @ [SetTimeout ival]"
        by (simp add: trace_try_block)
      from Suc.IH [of "a + 1" ?w2] obtain k where k: "?shape fuel (a + 1) ?w2 k"
        by blast
      have "?shape (Suc fuel) a w (Suc k)"
        using k le unfolding eq tr
        by (auto simp: rounds_Suc add.commute add.left_commute)
      then show ?thesis by blast
    qed
  qed
qed

lemma pollLoop_run:
  "\<exists>k. k \<le> fuel \<and>
       (\<forall>m. last_attempt maxA = Some m \<longrightarrow> 1 \<le> a \<longrightarrow> int k \<le> max 0 (m + 1 - a)) \<and>
       run_ok callId w (pollLoop fuel callId maxA ival onP a w) k"
proof (induction fuel arbitrary: a w)
  case 0
  have "run_ok callId w (pollLoop 0 callId maxA ival onP a w) 0"
    by (simp add: pollLoop.simps run_ok_def)
  then show ?case by (intro exI [of _ 0]) simp
next
  case (Suc fuel)
  let ?tb = "try_block callId maxA onP a w"
  let ?tc = "try_catch callId maxA onP a w"
  let ?c = "if progress_ok onP a maxA then 1 else (0::nat)"
  show ?case
  proof (cases "js_le a maxA")
    case False
    then have "run_ok callId w (pollLoop (Suc fuel) callId maxA ival onP a w) 0"
      by (simp add: pollLoop_Suc run_ok_def)
    then show ?thesis by (intro exI [of _ 0]) simp
  next
    case le: True
    have one: "\<forall>m. last_attempt maxA = Some m \<longrightarrow> 1 \<le> a \<longrightarrow> int 1 \<le> max 0 (m + 1 - a)"
      using le js_le_last [of maxA _ a] by auto
    show ?thesis
    proof (cases "fst ?tc")
      case (Return st)
      then have tb: "fst ?tb = Return st" by (simp add: try_catch_Return)
      from try_block_Return [OF tb] last_trace_Return [OF tb]
      have "run_ok callId w (pollLoop (Suc fuel) callId maxA ival onP a w) 1"
        using le Return
        by (simp add: pollLoop_Suc run_ok_def status_calls_try_block)
      with one show ?thesis by (intro exI [of _ 1]) simp
    next
      case (Throw e)
      from try_catch_Throw [OF Throw] obtain e' where
        e: "e = Error ''Timeout: Data not available after maximum attempts''" and tb: "fst ?tb = Throw e'"
        by blast
      have nd: "progress_ok onP a maxA \<Longrightarrow> \<not> gives_data (status_of (net w 0))"
        using try_block_no_data [of onP a maxA callId w] tb by simp
      have "run_ok callId w (pollLoop (Suc fuel) callId maxA ival onP a w) ?c"
        using le Throw e nd
        by (simp add: pollLoop_Suc run_ok_def status_calls_try_block)
      with one show ?thesis by (intro exI [of _ ?c]) auto
    next
      case Normal
      let ?w2 = "emit (SetTimeout ival) (snd ?tb)"
      have eq: "pollLoop (Suc fuel) callId maxA ival onP a w = pollLoop fuel callId maxA ival onP (increment a) ?w2"
        using le Normal by (simp add: pollLoop_Suc)
      from Suc.IH [of "increment a" ?w2] obtain k where
        kf: "k \<le> fuel" and
        kb: "\<forall>m. last_attempt maxA = Some m \<longrightarrow> 1 \<le> increment a \<longrightarrow> int k \<le> max 0 (m + 1 - (increment a))" and
        ok: "run_ok callId ?w2 (pollLoop fuel callId maxA ival onP (increment a) ?w2) k"
        by blast
      have nd: "progress_ok onP a maxA \<Longrightarrow> \<not> gives_data (status_of (net w 0))"
        using try_block_no_data [of onP a maxA callId w] try_catch_Normal [OF Normal] by simp
      have net2: "net ?w2 = (\<lambda>n. net w (n + ?c))"
        by (simp add: net_try_block)
      have calls2: "status_calls callId ?w2 = status_calls callId w + ?c"
        by (simp add: status_calls_try_block)
      have "run_ok callId w (pollLoop fuel callId maxA ival onP (increment a) ?w2) (?c + k)"
      proof (cases "progress_ok onP a maxA")
        case False
        with ok net2 calls2 show ?thesis
          unfolding run_ok_def
          by (cases "fst (pollLoop fuel callId maxA ival onP (increment a) ?w2)")
            (simp_all split: sum.splits)
      next
        case True
        have shift: "\<And>j. net ?w2 j = net w (Suc j)" using net2 True by simp
        have a1: "\<forall>j. Suc j < Suc k \<longrightarrow> \<not> gives_data (status_of (net w j))"
        proof (intro allI impI)
          fix j assume j: "Suc j < Suc k"
          show "\<not> gives_data (status_of (net w j))"
          proof (cases j)
            case 0 then show ?thesis using nd True by simp
          next
            case (Suc i)
            with j have "Suc i < k" by simp
            with ok have "\<not> gives_data (status_of (net ?w2 i))" unfolding run_ok_def by blast
            then show ?thesis using shift Suc by simp
          qed
        qed
        have a2: "0 < k \<Longrightarrow> net ?w2 (k - 1) = net w k"
          using shift [of "k - 1"] by simp
        show ?thesis
          using ok True calls2 a1 a2 nd
          unfolding run_ok_def
          by (cases "fst (pollLoop fuel callId maxA ival onP (increment a) ?w2)"; cases k)
            (simp_all split: sum.splits)
      qed
      moreover have "\<forall>m. last_attempt maxA = Some m \<longrightarrow> 1 \<le> a \<longrightarrow> int (?c + k) \<le> max 0 (m + 1 - a)"
      proof (intro allI impI)
        fix m assume m: "last_attempt maxA = Some m" and a: "1 \<le> a"
        with le js_le_last [of maxA m a] last_attempt_small [of maxA m] have "a \<le> m" "a < 2 ^ 53"
          by simp_all
        then have inc: "increment a = a + 1" by (simp add: increment_small)
        with kb m a have "int k \<le> max 0 (m + 1 - (a + 1))" by simp
        with \<open>a \<le> m\<close> show "int (?c + k) \<le> max 0 (m + 1 - a)" by simp
      qed
      moreover have "?c + k \<le> Suc fuel" using kf by simp
      ultimately show ?thesis
        unfolding eq by (intro exI [of _ "?c + k"]) blast
    qed
  qed
qed

lemma pollLoop_fetches:
  "\<exists>k. filter is_fetch (trace (snd (pollLoop fuel callId maxA ival onP a w))) =
     filter is_fetch (trace w) @ replicate k (Fetch (status_request callId))"
proof (induction fuel arbitrary: a w)
  case 0
  have "filter is_fetch (trace (snd (pollLoop 0 callId maxA ival onP a w))) =
     filter is_fetch (trace w) @ replicate 0 (Fetch (status_request callId))"
    by (simp add: pollLoop.simps)
  then show ?case by blast
next
  case (Suc fuel)
  let ?tb = "try_block callId maxA onP a w"
  let ?c = "if progress_ok onP a maxA then 1 else (0::nat)"
  have one: "filter is_fetch (trace (snd ?tb)) =
      filter is_fetch (trace w) @ replicate ?c (Fetch (status_request callId))"
    by (simp add: trace_try_block filter_fetch_attempt)
  show ?case
  proof (cases "js_le a maxA \<and> fst (try_catch callId maxA onP a w) = Normal")
    case False
    then have "filter is_fetch (trace (snd (pollLoop (Suc fuel) callId maxA ival onP a w))) =
        filter is_fetch (trace w) @ replicate (if js_le a maxA then ?c else 0) (Fetch (status_request callId))"
      using one by (auto simp: pollLoop_Suc split: completion.splits)
    then show ?thesis by blast
  next
    case True
    let ?w2 = "emit (SetTimeout ival) (snd ?tb)"
    have eq: "pollLoop (Suc fuel) callId maxA ival onP a w = pollLoop fuel callId maxA ival onP (increment a) ?w2"
      using True by (simp add: pollLoop_Suc)
    from Suc.IH [of "increment a" ?w2] obtain k where
      "filter is_fetch (trace (snd (pollLoop fuel callId maxA ival onP (increment a) ?w2))) =
         filter is_fetch (trace ?w2) @ replicate k (Fetch (status_request callId))"
      by blast
    then have "filter is_fetch (trace (snd (pollLoop (Suc fuel) callId maxA ival onP a w))) =
        filter is_fetch (trace w) @ replicate (?c + k) (Fetch (status_request callId))"
      unfolding eq using one by (simp add: is_fetch_def replicate_add)
    then show ?thesis by blast
  qed
qed

lemma pollLoop_ends:
  "last_attempt maxA = Some m \<Longrightarrow> 1 \<le> a \<Longrightarrow> nat (m + 1 - a) < fuel \<Longrightarrow>
     \<exists>r. fst (pollLoop fuel callId maxA ival onP a w) = Some r"
proof (induction fuel arbitrary: a w)
  case 0
  then show ?case by simp
next
  case (Suc fuel)
  show ?case
  proof (cases "js_le a maxA \<and> fst (try_catch callId maxA onP a w) = Normal")
    case False
    then show ?thesis by (auto simp: pollLoop_Suc split: completion.splits)
  next
    case True
    with Suc.prems js_le_last [of maxA m a] have "a \<le> m" by simp
    with last_attempt_small [OF Suc.prems(1)] have inc: "increment a = a + 1"
      by (simp add: increment_small)
    from \<open>a \<le> m\<close> Suc.prems have "nat (m + 1 - (a + 1)) < fuel" "1 \<le> a + 1" by auto
    from Suc.IH [OF Suc.prems(1) this(2) this(1)] True show ?thesis
      by (simp add: pollLoop_Suc inc)
  qed
qed

lemma pollLoop_forever:
  "\<forall>j. \<not> gives_data (status_of (net w j)) \<Longrightarrow>
     fst (pollLoop fuel callId PosInfinity ival onP a w) = None"
proof (induction fuel arbitrary: a w)
  case 0
  then show ?case by (simp add: pollLoop.simps)
next
  case (Suc fuel)
  let ?tb = "try_block callId PosInfinity onP a w"
  have "\<forall>st. fst ?tb \<noteq> Return st"
  proof (intro allI notI)
    fix st assume "fst ?tb = Return st"
    from try_block_Return [OF this] have "gives_data (status_of (net w 0))"
      by (simp add: gives_data_def)
    with Suc.prems show False by blast
  qed
  then have nrm: "fst (try_catch callId PosInfinity onP a w) = Normal"
    by (cases "fst ?tb") (simp_all add: fst_try_catch)
  have "\<forall>j. \<not> gives_data (status_of (net (emit (SetTimeout ival) (snd ?tb)) j))"
    using Suc.prems by (simp add: net_try_block)
  from Suc.IH [OF this] nrm show ?case
    by (simp add: pollLoop_Suc)
qed

lemma pollLoop_skip:
  assumes "\<forall>t. a \<le> t \<and> t < a + int k \<longrightarrow>
      js_le t maxA \<and> quiet (outcome_from onP maxA w a t) t maxA"
    and "a + int k \<le> 2 ^ 53"
  shows "pollLoop (k + fuel) callId maxA ival onP a w =
     pollLoop fuel callId maxA ival onP (a + int k)
       (advanced w (calls_from onP maxA a (a + int k)) (rounds callId maxA ival onP a k))"
  using assms
proof (induction k arbitrary: a w)
  case 0
  then show ?case by simp
next
  case (Suc k)
  let ?c = "if progress_ok onP a maxA then 1 else (0::nat)"
  let ?w2 = "advanced w ?c (attempt_events callId maxA onP a @ [SetTimeout ival])"
  from Suc.prems have le: "js_le a maxA" and q: "quiet (outcome_from onP maxA w a a) a maxA"
    by simp_all
  from Suc.prems(2) have small: "a < 2 ^ 53" "a + 1 + int k \<le> 2 ^ 53" by simp_all
  then have inc: "increment a = a + 1" and num: "attempt_number a = a"
    by (simp_all add: increment_small attempt_number_small)
  from q have nrm: "fst (try_catch callId maxA onP a w) = Normal"
    by (simp add: quiet_Normal outcome_from_start)
  have step: "pollLoop (Suc k + fuel) callId maxA ival onP a w =
      pollLoop (k + fuel) callId maxA ival onP (a + 1) ?w2"
    using le nrm by (simp add: pollLoop_Suc snd_try_block emit_advanced inc)
  have "\<forall>t. a + 1 \<le> t \<and> t < a + 1 + int k \<longrightarrow>
      js_le t maxA \<and> quiet (outcome_from onP maxA ?w2 (a + 1) t) t maxA"
    using Suc.prems(1) by (simp add: outcome_from_shift)
  from Suc.IH [OF this small(2)]
  have "pollLoop (k + fuel) callId maxA ival onP (a + 1) ?w2 =
     pollLoop fuel callId maxA ival onP (a + 1 + int k)
       (advanced ?w2 (calls_from onP maxA (a + 1) (a + 1 + int k))
          (rounds callId maxA ival onP (a + 1) k))" .
  also have "advanced ?w2 (calls_from onP maxA (a + 1) (a + 1 + int k))
          (rounds callId maxA ival onP (a + 1) k) =
      advanced w (calls_from onP maxA a (a + 1 + int k)) (rounds callId maxA ival onP a (Suc k))"
  proof -
    from calls_from_rec [of a "a + 1 + int k" onP maxA]
    have "calls_from onP maxA (a + 1) (a + 1 + int k) + ?c = calls_from onP maxA a (a + 1 + int k)"
      by simp
    then show ?thesis
      by (simp only: advanced_advanced rounds_Suc num append_assoc)
  qed
  finally have "pollLoop (Suc k + fuel) callId maxA ival onP a w =
     pollLoop fuel callId maxA ival onP (a + 1 + int k)
       (advanced w (calls_from onP maxA a (a + 1 + int k)) (rounds callId maxA ival onP a (Suc k)))"
    unfolding step .
  moreover have "a + int (Suc k) = a + 1 + int k" by simp
  ultimately show ?case by (simp only:)
qed

lemma pollLoop_found:
  assumes "1 \<le> i" and "js_le i maxA" and "outcome_from onP maxA w 1 i = Return st"
    and "\<forall>t. 1 \<le> t \<and> t < i \<longrightarrow> \<not> finds_data (outcome_from onP maxA w 1 t)"
    and "nat i \<le> fuel" and "i \<le> 2 ^ 53"
  shows "pollLoop fuel callId maxA ival onP 1 w =
     (Some (Inr st),
      advanced w (calls_from onP maxA 1 (i + 1))
        (rounds callId maxA ival onP 1 (nat (i - 1)) @ attempt_events callId maxA onP i))"
proof -
  let ?k = "nat (i - 1)"
  let ?W = "advanced w (calls_from onP maxA 1 i) (rounds callId maxA ival onP 1 ?k)"
  from assms(1,5) obtain f where fuel: "fuel = ?k + Suc f"
    by (metis Suc_nat_eq_nat_zadd1 add_Suc_right le_Suc_ex diff_add_cancel diff_ge_0_iff_ge add.commute)
  have "js_le t maxA \<and> quiet (outcome_from onP maxA w 1 t) t maxA" if "1 \<le> t" "t < i" for t
    using not_found_quiet [OF assms(2) that(2)] assms(4) that by blast
  with assms(1) have "\<forall>t. 1 \<le> t \<and> t < 1 + int ?k \<longrightarrow>
      js_le t maxA \<and> quiet (outcome_from onP maxA w 1 t) t maxA"
    by simp
  moreover from assms(1,6) have "1 + int ?k \<le> 2 ^ 53" by simp
  ultimately have "pollLoop (?k + Suc f) callId maxA ival onP 1 w =
      pollLoop (Suc f) callId maxA ival onP (1 + int ?k)
        (advanced w (calls_from onP maxA 1 (1 + int ?k)) (rounds callId maxA ival onP 1 ?k))"
    by (rule pollLoop_skip)
  with assms(1)
  have "pollLoop fuel callId maxA ival onP 1 w = pollLoop (Suc f) callId maxA ival onP i ?W"
    by (simp add: fuel)
  moreover have "fst (try_block callId maxA onP i ?W) = Return st"
    using assms(3) by (simp add: outcome_from_reached)
  moreover from try_block_Return [OF this] have "progress_ok onP i maxA" by simp
  moreover have "calls_from onP maxA 1 (i + 1) =
      (if progress_ok onP i maxA then 1 else 0) + calls_from onP maxA 1 i"
    using calls_from_step [OF assms(1), of onP maxA] by simp
  ultimately show ?thesis
    using assms(1,2)
    by (simp add: pollLoop_Suc try_catch_Return [THEN iffD2] snd_try_block advanced_advanced)
qed

lemma pollLoop_last_throws:
  assumes "maxA = Num (of_int n)" and "1 \<le> n" and "outcome_from onP maxA w 1 n = Throw e"
    and "\<forall>t. 1 \<le> t \<and> t < n \<longrightarrow> \<not> finds_data (outcome_from onP maxA w 1 t)"
    and "nat n \<le> fuel" and "n \<le> 2 ^ 53"
  shows "pollLoop fuel callId maxA ival onP 1 w =
     (Some (Inl (Error ''Timeout: Data not available after maximum attempts'')),
      advanced w (calls_from onP maxA 1 (n + 1))
        (rounds callId maxA ival onP 1 (nat (n - 1)) @ attempt_events callId maxA onP n))"
proof -
  let ?k = "nat (n - 1)"
  let ?W = "advanced w (calls_from onP maxA 1 n) (rounds callId maxA ival onP 1 ?k)"
  from assms(1) have le: "js_le n maxA" and eq: "js_eq n maxA" by simp_all
  from assms(2,5) obtain f where fuel: "fuel = ?k + Suc f"
    by (metis Suc_nat_eq_nat_zadd1 add_Suc_right le_Suc_ex diff_add_cancel diff_ge_0_iff_ge add.commute)
  have "js_le t maxA \<and> quiet (outcome_from onP maxA w 1 t) t maxA" if "1 \<le> t" "t < n" for t
    using not_found_quiet [OF le that(2)] assms(4) that by blast
  with assms(2) have "\<forall>t. 1 \<le> t \<and> t < 1 + int ?k \<longrightarrow>
      js_le t maxA \<and> quiet (outcome_from onP maxA w 1 t) t maxA"
    by simp
  moreover from assms(2,6) have "1 + int ?k \<le> 2 ^ 53" by simp
  ultimately have "pollLoop (?k + Suc f) callId maxA ival onP 1 w =
      pollLoop (Suc f) callId maxA ival onP (1 + int ?k)
        (advanced w (calls_from onP maxA 1 (1 + int ?k)) (rounds callId maxA ival onP 1 ?k))"
    by (rule pollLoop_skip)
  with assms(2)
  have "pollLoop fuel callId maxA ival onP 1 w = pollLoop (Suc f) callId maxA ival onP n ?W"
    by (simp add: fuel)
  moreover have "fst (try_block callId maxA onP n ?W) = Throw e"
    using assms(3) by (simp add: outcome_from_reached)
  moreover have "calls_from onP maxA 1 (n + 1) =
      (if progress_ok onP n maxA then 1 else 0) + calls_from onP maxA 1 n"
    using calls_from_step [OF assms(2), of onP maxA] by simp
  ultimately show ?thesis
    using assms(2) le eq
    by (simp add: pollLoop_Suc fst_try_catch snd_try_block advanced_advanced)
qed

lemma pollLoop_runs_out:
  assumes "last_attempt maxA = Some m" and "0 \<le> m"
    and "\<forall>t. 1 \<le> t \<and> t \<le> m \<longrightarrow> quiet (outcome_from onP maxA w 1 t) t maxA"
    and "nat m < fuel"
  shows "pollLoop fuel callId maxA ival onP 1 w =
     (Some (Inl (Error ''Timeout: Failed to get status after maximum attempts'')),
      advanced w (calls_from onP maxA 1 (m + 1)) (rounds callId maxA ival onP 1 (nat m)))"
proof -
  let ?k = "nat m"
  from assms(4) obtain f where fuel: "fuel = ?k + Suc f"
    by (metis add_Suc_right less_iff_Suc_add)
  have "\<forall>t. 1 \<le> t \<and> t < 1 + int ?k \<longrightarrow>
      js_le t maxA \<and> quiet (outcome_from onP maxA w 1 t) t maxA"
    using assms(1,2,3) js_le_last [OF assms(1)] by auto
  moreover from assms(2) last_attempt_small [OF assms(1)] have "1 + int ?k \<le> 2 ^ 53" by simp
  ultimately have "pollLoop (?k + Suc f) callId maxA ival onP 1 w =
      pollLoop (Suc f) callId maxA ival onP (1 + int ?k)
        (advanced w (calls_from onP maxA 1 (1 + int ?k)) (rounds callId maxA ival onP 1 ?k))"
    by (rule pollLoop_skip)
  with assms(2)
  have "pollLoop fuel callId maxA ival onP 1 w =
      pollLoop (Suc f) callId maxA ival onP (1 + m)
        (advanced w (calls_from onP maxA 1 (1 + m)) (rounds callId maxA ival onP 1 ?k))"
    by (simp add: fuel)
  moreover have "\<not> js_le (1 + m) maxA"
    using js_le_last [OF assms(1), of "1 + m"] assms(2) by simp
  ultimately show ?thesis
    by (simp add: pollLoop_Suc add.commute)
qed

lemma pollStatus_run:
  "\<exists>k. k \<le> fuel \<and>
       (\<forall>m. last_attempt (maxAttempts_of options) = Some m \<longrightarrow> int k \<le> max 0 m) \<and>
       run_ok callId w (pollStatus fuel callId options w) k"
  using pollLoop_run [of fuel "maxAttempts_of options" 1 callId w "interval_of options" "onProgress options"]
  by (simp add: pollStatus_def)

subsection \<open>Runs on the example inputs\<close>

lemma eval_two_attempts:
  "pollStatus 3 ''CALL_1'' two_attempts (scripted [no_records]) =
     (Some (Inl (Error ''Timeout: Data not available after maximum attempts'')),
      \<lparr>net = (\<lambda>n. net (scripted [no_records]) (Suc (Suc n))),
       trace = [Fetch (status_request ''CALL_1''), SetTimeout (Num 100),
                Fetch (status_request ''CALL_1'')]\<rparr>)"
  by (simp add: pollStatus_def Let_def two_attempts_def numeral_3_eq_3 pollLoop.simps increment_def try_catch_def
      try_block_def call_onProgress_def getStatus_def fetch_def scripted_def no_records_def
      served_def emit_def)

lemma eval_logging:
  "pollStatus 2 ''CALL_1'' logging (scripted [answers placeholders, answers report_ready]) =
     (Some (Inr report_ready),
      \<lparr>net = (\<lambda>n. net (scripted [answers placeholders, answers report_ready]) (Suc (Suc n))),
       trace = [Progress 1 (Num 3), Fetch (status_request ''CALL_1''), SetTimeout (Num 2000),
                Progress 2 (Num 3), Fetch (status_request ''CALL_1'')]\<rparr>)"
  by (simp add: pollStatus_def Let_def logging_def numeral_2_eq_2 pollLoop.simps increment_def try_catch_def
      try_block_def call_onProgress_def getStatus_def fetch_def scripted_def answers_def
      served_def emit_def has_meaningful_data_def non_null_object_def placeholders_def
      report_ready_def)

lemma eval_two_and_a_half:
  "pollStatus 3 ''CALL_1'' two_and_a_half (scripted []) =
     (Some (Inl (Error ''Timeout: Failed to get status after maximum attempts'')),
      \<lparr>net = (\<lambda>n. net (scripted []) (Suc (Suc n))),
       trace = [Fetch (status_request ''CALL_1''), SetTimeout (Num 100),
                Fetch (status_request ''CALL_1''), SetTimeout (Num 100)]\<rparr>)"
  by (simp add: pollStatus_def Let_def two_and_a_half_def numeral_3_eq_3 pollLoop.simps increment_def try_catch_def
      try_block_def call_onProgress_def getStatus_def fetch_def scripted_def served_def emit_def)

lemma eval_calls_logging:
  "calls_from (onProgress logging) (maxAttempts_of logging) 1 1 = 0 \<and>
   calls_from (onProgress logging) (maxAttempts_of logging) 1 2 = 1"
  by (simp add: calls_from_def logging_def progress_ok_def progress_result_def upto.simps)

lemma eval_calls_two_attempts:
  "calls_from (onProgress two_attempts) (maxAttempts_of two_attempts) 1 1 = 0 \<and>
   calls_from (onProgress two_attempts) (maxAttempts_of two_attempts) 1 2 = 1"
  by (simp add: calls_from_def two_attempts_def progress_ok_def progress_result_def upto.simps)

subsection \<open>Claims about the API service module\<close>

text \<open>
  C1, as amended. When \<open>maxAttempts\<close> is below \<open>2\<^sup>5\<^sup>3\<close> (so not
  \<^verbatim>\<open>Infinity\<close>), \<open>pollStatus\<close> polls a fixed number of times: at every moment of a run
  it has called \<open>getStatus\<close> at most \<open>maxAttempts\<close> times (the integer part of it, and
  not at all for \<^verbatim>\<open>NaN\<close> or a number below 1; 5 when the option is absent), and the run
  ends once the loop has been given more tests than that. Whatever \<open>maxAttempts\<close> is, a
  run that ends without any of its calls having returned meaningful data throws an
  \<open>Error\<close> whose message begins with \<open>Timeout\<close>.
\<close>

theorem pollStatus_fixed_count:
  "(last_attempt (maxAttempts_of options) = Some m \<longrightarrow>
      status_calls callId (snd (pollStatus fuel callId options w))
        \<le> status_calls callId w + nat m \<and>
      (nat m < fuel \<longrightarrow> (\<exists>r. fst (pollStatus fuel callId options w) = Some r))) \<and>
   (maxAttempts options' = None \<longrightarrow> last_attempt (maxAttempts_of options') = Some 5) \<and>
   (fst (pollStatus fuel callId options w) = Some r \<longrightarrow>
    (\<forall>j < calls_made fuel callId options w. \<not> gives_data (status_of (net w j))) \<longrightarrow>
    (\<exists>rest. r = Inl (Error (''Timeout'' @ rest))))"
proof -
  from pollStatus_run [of fuel options callId w] obtain k where
    kb: "\<forall>m. last_attempt (maxAttempts_of options) = Some m \<longrightarrow> int k \<le> max 0 m" and
    ok: "run_ok callId w (pollStatus fuel callId options w) k"
    by blast
  from ok have calls: "calls_made fuel callId options w = k"
    by (simp add: run_ok_def calls_made_def)
  have bound: "status_calls callId (snd (pollStatus fuel callId options w))
        \<le> status_calls callId w + nat m"
    if "last_attempt (maxAttempts_of options) = Some m"
    using ok kb that by (auto simp: run_ok_def)
  have ends: "\<exists>r. fst (pollStatus fuel callId options w) = Some r"
    if "last_attempt (maxAttempts_of options) = Some m" "nat m < fuel"
    using pollLoop_ends [OF that(1), of 1 fuel callId "interval_of options" "onProgress options" w] that(2)
    by (simp add: pollStatus_def)
  have dflt: "last_attempt (maxAttempts_of options') = Some 5" if "maxAttempts options' = None"
    using that by (simp add: last_attempt_def)
  have timeout: "\<exists>rest. r = Inl (Error (''Timeout'' @ rest))"
    if res: "fst (pollStatus fuel callId options w) = Some r"
      and nodata: "\<forall>j < calls_made fuel callId options w. \<not> gives_data (status_of (net w j))"
  proof (cases r)
    case (Inr st)
    with ok res have "0 < k" and "status_of (net w (k - 1)) = Inr st" and "has_meaningful_data st = Inr True"
      by (simp_all add: run_ok_def)
    then have "gives_data (status_of (net w (k - 1)))" and "k - 1 < k"
      by (simp_all add: gives_data_def)
    with nodata calls show ?thesis by blast
  next
    case (Inl e)
    with ok res have "e = Error ''Timeout: Data not available after maximum attempts'' \<or>
        e = Error ''Timeout: Failed to get status after maximum attempts''"
      by (simp add: run_ok_def)
    with Inl show ?thesis by auto
  qed
  from bound ends dflt timeout show ?thesis by blast
qed

theorem pollStatus_fixed_count_witness:
  "last_attempt (maxAttempts_of two_attempts) = Some 2 \<and>
   nat 2 < (3::nat) \<and>
   calls_made 3 ''CALL_1'' two_attempts (scripted [no_records]) = 2 \<and>
   \<not> gives_data (status_of (net (scripted [no_records]) 0)) \<and>
   \<not> gives_data (status_of (net (scripted [no_records]) 1)) \<and>
   status_calls ''CALL_1'' (snd (pollStatus 3 ''CALL_1'' two_attempts (scripted [no_records])))
     \<le> status_calls ''CALL_1'' (scripted [no_records]) + nat 2 \<and>
   fst (pollStatus 3 ''CALL_1'' two_attempts (scripted [no_records])) =
     Some (Inl (Error ''Timeout: Data not available after maximum attempts'')) \<and>
   (\<exists>rest. Inl (Error ''Timeout: Data not available after maximum attempts'') =
      (Inl (Error (''Timeout'' @ rest)) :: js_error + json)) \<and>
   maxAttempts no_options = None \<and>
   last_attempt (maxAttempts_of no_options) = Some 5"
proof -
  let ?w = "scripted [no_records]"
  let ?r = "Inl (Error ''Timeout: Data not available after maximum attempts'') :: js_error + json"
  have la: "last_attempt (maxAttempts_of two_attempts) = Some 2"
    by (simp add: two_attempts_def last_attempt_def)
  have "trace ?w = []"
    by (simp add: scripted_def)
  then have calls: "calls_made 3 ''CALL_1'' two_attempts ?w = 2"
    by (simp add: calls_made_def eval_two_attempts status_calls_def)
  have res: "fst (pollStatus 3 ''CALL_1'' two_attempts ?w) = Some ?r"
    by (simp add: eval_two_attempts)
  have n0: "\<not> gives_data (status_of (net ?w 0))" and n1: "\<not> gives_data (status_of (net ?w 1))"
    by (simp_all add: gives_data_def status_of_def scripted_def no_records_def)
  have h: "\<forall>j < calls_made 3 ''CALL_1'' two_attempts ?w. \<not> gives_data (status_of (net ?w j))"
    unfolding calls using n0 n1 by (auto simp: less_Suc_eq numeral_2_eq_2)
  have nopt: "maxAttempts no_options = None"
    by (simp add: no_options_def)
  note inst = pollStatus_fixed_count [of two_attempts 2 "''CALL_1''" 3 ?w no_options ?r]
  from inst la have "status_calls ''CALL_1'' (snd (pollStatus 3 ''CALL_1'' two_attempts ?w))
     \<le> status_calls ''CALL_1'' ?w + nat 2"
    by blast
  moreover from inst res h have "\<exists>rest. ?r = Inl (Error (''Timeout'' @ rest))"
    by blast
  moreover from inst nopt have "last_attempt (maxAttempts_of no_options) = Some 5"
    by blast
  ultimately show ?thesis using la calls n0 n1 res nopt by simp
qed

text \<open>
  C1, as stated, speaks of every options value. With \<open>maxAttempts\<close> \<^verbatim>\<open>Infinity\<close> and
  a backend that is never reached, no attempt returns data and yet \<open>pollStatus\<close> never
  throws: the loop test always holds and the counter never equals \<open>maxAttempts\<close>, so
  every error is dropped.
\<close>

theorem pollStatus_polls_forever:
  "maxAttempts poll_forever = Some PosInfinity \<and> never_settles ''CALL_1'' poll_forever (scripted [])"
proof -
  have "\<forall>j. \<not> gives_data (status_of (net (scripted []) j))"
    by (simp add: gives_data_def status_of_def scripted_def)
  from pollLoop_forever [OF this] show ?thesis
    by (simp add: never_settles_def pollStatus_def poll_forever_def)
qed

text \<open>
  C2. \<open>pollStatus\<close> returns the status of the first attempt that finds meaningful
  data. When attempt \<open>i\<close> (up to \<open>2\<^sup>5\<^sup>3\<close>) is within \<open>maxAttempts\<close> and finds the
  status \<open>st\<close>, and no attempt before it found data (whether it failed, or succeeded
  without data), the run returns \<open>st\<close>, and what it has done by then is the rounds of
  the attempts before \<open>i\<close> and attempt \<open>i\<close> itself, whose request is the last: no
  call follows. In every run, no call before the last one made has returned meaningful
  data, and as soon as the last one made has, the run has returned. The other way round, a
  returned status is the result of the last call of the run, and a run that throws has seen
  no data in any of its calls.
  Data is meaningful exactly when \<open>emergency_details\<close> or \<open>medical_record_details\<close>
  is a non-null object, and an attempt whose \<open>getStatus\<close> succeeds with the two
  placeholder strings reaches the end of its \<^verbatim>\<open>try\<close> block, so the loop goes on.
\<close>

theorem pollStatus_returns_first_data:
  "(1 \<le> i \<longrightarrow> i \<le> 2 ^ 53 \<longrightarrow> js_le i (maxAttempts_of options) \<longrightarrow>
    outcome_from (onProgress options) (maxAttempts_of options) w 1 i = Return st \<longrightarrow>
    (\<forall>t. 1 \<le> t \<and> t < i \<longrightarrow>
       \<not> finds_data (outcome_from (onProgress options) (maxAttempts_of options) w 1 t)) \<longrightarrow>
    nat i \<le> fuel \<longrightarrow>
      pollStatus fuel callId options w =
        (Some (Inr st),
         advanced w (calls_from (onProgress options) (maxAttempts_of options) 1 (i + 1))
           (rounds callId (maxAttempts_of options) (interval_of options) (onProgress options) 1
              (nat (i - 1))
            @ attempt_events callId (maxAttempts_of options) (onProgress options) i))) \<and>
   (\<forall>j. Suc j < calls_made fuel callId options w \<longrightarrow> \<not> gives_data (status_of (net w j))) \<and>
   (0 < calls_made fuel callId options w \<longrightarrow>
    gives_data (status_of (net w (calls_made fuel callId options w - 1))) \<longrightarrow>
      (\<exists>s. fst (pollStatus fuel callId options w) = Some (Inr s))) \<and>
   (fst (pollStatus fuel callId options w) = Some (Inr st) \<longrightarrow>
      0 < calls_made fuel callId options w \<and>
      status_of (net w (calls_made fuel callId options w - 1)) = Inr st \<and>
      has_meaningful_data st = Inr True \<and>
      last (trace (snd (pollStatus fuel callId options w))) = Fetch (status_request callId)) \<and>
   (fst (pollStatus fuel' callId options' w') = Some (Inl error) \<longrightarrow>
      (\<forall>j. j < calls_made fuel' callId options' w' \<longrightarrow> \<not> gives_data (status_of (net w' j)))) \<and>
   (has_meaningful_data st' = Inr True \<longleftrightarrow>
      (\<exists>ed. get_prop st' ''emergency_details'' = Inr ed \<and> non_null_object ed) \<or>
      (\<exists>md. get_prop st' ''medical_record_details'' = Inr md \<and> non_null_object md)) \<and>
   (get_prop st'' ''emergency_details'' = Inr (Some (JStr ''No emergency data'')) \<longrightarrow>
    get_prop st'' ''medical_record_details'' = Inr (Some (JStr ''No medical record data'')) \<longrightarrow>
      judge (Inr st'') = Normal)"
proof -
  have found: "pollStatus fuel callId options w =
        (Some (Inr st),
         advanced w (calls_from (onProgress options) (maxAttempts_of options) 1 (i + 1))
           (rounds callId (maxAttempts_of options) (interval_of options) (onProgress options) 1
              (nat (i - 1))
            @ attempt_events callId (maxAttempts_of options) (onProgress options) i))"
    if "1 \<le> i" "js_le i (maxAttempts_of options)"
      "outcome_from (onProgress options) (maxAttempts_of options) w 1 i = Return st"
      "\<forall>t. 1 \<le> t \<and> t < i \<longrightarrow>
         \<not> finds_data (outcome_from (onProgress options) (maxAttempts_of options) w 1 t)"
      "nat i \<le> fuel" "i \<le> 2 ^ 53"
    using pollLoop_found [OF that, of callId "interval_of options"]
    by (simp add: pollStatus_def)
  from pollStatus_run [of fuel options callId w] obtain k where
    ok: "run_ok callId w (pollStatus fuel callId options w) k"
    by blast
  from ok have calls: "calls_made fuel callId options w = k"
    by (simp add: run_ok_def calls_made_def)
  have first: "\<forall>j. Suc j < calls_made fuel callId options w \<longrightarrow> \<not> gives_data (status_of (net w j))"
    using ok unfolding calls run_ok_def by blast
  have got: "\<exists>s. fst (pollStatus fuel callId options w) = Some (Inr s)"
    if "0 < calls_made fuel callId options w"
      "gives_data (status_of (net w (calls_made fuel callId options w - 1)))"
  proof (cases "fst (pollStatus fuel callId options w)")
    case None
    with ok that show ?thesis unfolding calls run_ok_def by simp
  next
    case (Some r)
    with ok that show ?thesis unfolding calls run_ok_def by (cases r) simp_all
  qed
  have ret: "0 < calls_made fuel callId options w \<and>
      status_of (net w (calls_made fuel callId options w - 1)) = Inr st \<and>
      has_meaningful_data st = Inr True \<and>
      last (trace (snd (pollStatus fuel callId options w))) = Fetch (status_request callId)"
    if "fst (pollStatus fuel callId options w) = Some (Inr st)"
    using ok that unfolding calls run_ok_def by simp
  from pollStatus_run [of fuel' options' callId w'] obtain k' where
    ok': "run_ok callId w' (pollStatus fuel' callId options' w') k'"
    by blast
  from ok' have calls': "calls_made fuel' callId options' w' = k'"
    by (simp add: run_ok_def calls_made_def)
  have err: "\<forall>j. j < calls_made fuel' callId options' w' \<longrightarrow> \<not> gives_data (status_of (net w' j))"
    if res: "fst (pollStatus fuel' callId options' w') = Some (Inl error)"
  proof (intro allI impI)
    fix j assume j: "j < calls_made fuel' callId options' w'"
    from ok' res have e1: "\<forall>j. Suc j < k' \<longrightarrow> \<not> gives_data (status_of (net w' j))"
      and e2: "0 < k' \<longrightarrow> \<not> gives_data (status_of (net w' (k' - 1)))"
      by (simp_all add: run_ok_def)
    show "\<not> gives_data (status_of (net w' j))"
    proof (cases "Suc j < k'")
      case True
      with e1 show ?thesis by blast
    next
      case False
      with j calls' have "j = k' - 1" "0 < k'" by simp_all
      with e2 show ?thesis by simp
    qed
  qed
  have meaning: "has_meaningful_data st' = Inr True \<longleftrightarrow>
      (\<exists>ed. get_prop st' ''emergency_details'' = Inr ed \<and> non_null_object ed) \<or>
      (\<exists>md. get_prop st' ''medical_record_details'' = Inr md \<and> non_null_object md)"
    by (cases st') (auto simp: has_meaningful_data_def)
  have holder: "judge (Inr st'') = Normal"
    if "get_prop st'' ''emergency_details'' = Inr (Some (JStr ''No emergency data''))"
      "get_prop st'' ''medical_record_details'' = Inr (Some (JStr ''No medical record data''))"
    using that by (simp add: judge_def has_meaningful_data_def non_null_object_def)
  show ?thesis
  proof (intro conjI)
    show "1 \<le> i \<longrightarrow> i \<le> 2 ^ 53 \<longrightarrow> js_le i (maxAttempts_of options) \<longrightarrow>
      outcome_from (onProgress options) (maxAttempts_of options) w 1 i = Return st \<longrightarrow>
      (\<forall>t. 1 \<le> t \<and> t < i \<longrightarrow>
         \<not> finds_data (outcome_from (onProgress options) (maxAttempts_of options) w 1 t)) \<longrightarrow>
      nat i \<le> fuel \<longrightarrow>
        pollStatus fuel callId options w =
          (Some (Inr st),
           advanced w (calls_from (onProgress options) (maxAttempts_of options) 1 (i + 1))
             (rounds callId (maxAttempts_of options) (interval_of options) (onProgress options) 1
                (nat (i - 1))
              @ attempt_events callId (maxAttempts_of options) (onProgress options) i))"
      using found by blast
    show "\<forall>j. Suc j < calls_made fuel callId options w \<longrightarrow> \<not> gives_data (status_of (net w j))"
      by (rule first)
    show "0 < calls_made fuel callId options w \<longrightarrow>
      gives_data (status_of (net w (calls_made fuel callId options w - 1))) \<longrightarrow>
        (\<exists>s. fst (pollStatus fuel callId options w) = Some (Inr s))"
      using got by blast
    show "fst (pollStatus fuel callId options w) = Some (Inr st) \<longrightarrow>
      0 < calls_made fuel callId options w \<and>
      status_of (net w (calls_made fuel callId options w - 1)) = Inr st \<and>
      has_meaningful_data st = Inr True \<and>
      last (trace (snd (pollStatus fuel callId options w))) = Fetch (status_request callId)"
      using ret by blast
    show "fst (pollStatus fuel' callId options' w') = Some (Inl error) \<longrightarrow>
      (\<forall>j. j < calls_made fuel' callId options' w' \<longrightarrow> \<not> gives_data (status_of (net w' j)))"
      using err by blast
    show "has_meaningful_data st' = Inr True \<longleftrightarrow>
      (\<exists>ed. get_prop st' ''emergency_details'' = Inr ed \<and> non_null_object ed) \<or>
      (\<exists>md. get_prop st' ''medical_record_details'' = Inr md \<and> non_null_object md)"
      by (rule meaning)
    show "get_prop st'' ''emergency_details'' = Inr (Some (JStr ''No emergency data'')) \<longrightarrow>
      get_prop st'' ''medical_record_details'' = Inr (Some (JStr ''No medical record data'')) \<longrightarrow>
        judge (Inr st'') = Normal"
      using holder by blast
  qed
qed

theorem pollStatus_returns_first_data_witness:
  "(1::int) \<le> 2 \<and> (2::int) \<le> 2 ^ 53 \<and>
   js_le 2 (maxAttempts_of logging) \<and>
   outcome_from (onProgress logging) (maxAttempts_of logging)
     (scripted [answers placeholders, answers report_ready]) 1 2 = Return report_ready \<and>
   \<not> finds_data (outcome_from (onProgress logging) (maxAttempts_of logging)
     (scripted [answers placeholders, answers report_ready]) 1 1) \<and>
   nat 2 \<le> (2::nat) \<and>
   fst (pollStatus 2 ''CALL_1'' logging (scripted [answers placeholders, answers report_ready]))
     = Some (Inr report_ready) \<and>
   calls_made 2 ''CALL_1'' logging (scripted [answers placeholders, answers report_ready]) = 2 \<and>
   \<not> gives_data (status_of (net (scripted [answers placeholders, answers report_ready]) 0)) \<and>
   gives_data (status_of (net (scripted [answers placeholders, answers report_ready]) (2 - 1))) \<and>
   (\<exists>s. fst (pollStatus 2 ''CALL_1'' logging (scripted [answers placeholders, answers report_ready]))
      = Some (Inr s)) \<and>
   status_of (net (scripted [answers placeholders, answers report_ready]) (2 - 1)) = Inr report_ready \<and>
   fst (pollStatus 3 ''CALL_1'' two_attempts (scripted [no_records])) =
     Some (Inl (Error ''Timeout: Data not available after maximum attempts'')) \<and>
   calls_made 3 ''CALL_1'' two_attempts (scripted [no_records]) = 2 \<and>
   \<not> gives_data (status_of (net (scripted [no_records]) 0)) \<and>
   \<not> gives_data (status_of (net (scripted [no_records]) 1)) \<and>
   get_prop placeholders ''emergency_details'' = Inr (Some (JStr ''No emergency data'')) \<and>
   get_prop placeholders ''medical_record_details'' = Inr (Some (JStr ''No medical record data'')) \<and>
   judge (Inr placeholders) = Normal"
proof -
  let ?w = "scripted [answers placeholders, answers report_ready]"
  let ?v = "scripted [no_records]"
  have le: "js_le 2 (maxAttempts_of logging)"
    by (simp add: logging_def)
  have o2: "outcome_from (onProgress logging) (maxAttempts_of logging) ?w 1 2 = Return report_ready"
    using eval_calls_logging
    by (simp add: outcome_from_def progress_result_def judge_def status_of_def
        has_meaningful_data_def non_null_object_def report_ready_def scripted_def answers_def
        logging_def)
  have o1: "\<not> finds_data (outcome_from (onProgress logging) (maxAttempts_of logging) ?w 1 1)"
    using eval_calls_logging
    by (simp add: outcome_from_def progress_result_def judge_def status_of_def finds_data_def
        has_meaningful_data_def non_null_object_def placeholders_def scripted_def answers_def
        logging_def)
  have before: "\<forall>t. 1 \<le> t \<and> t < 2 \<longrightarrow>
      \<not> finds_data (outcome_from (onProgress logging) (maxAttempts_of logging) ?w 1 t)"
  proof (intro allI impI)
    fix t :: int assume "1 \<le> t \<and> t < 2"
    then have "t = 1" by simp
    with o1 show "\<not> finds_data (outcome_from (onProgress logging) (maxAttempts_of logging) ?w 1 t)"
      by simp
  qed
  have p1: "get_prop placeholders ''emergency_details'' = Inr (Some (JStr ''No emergency data''))"
    and p2: "get_prop placeholders ''medical_record_details'' = Inr (Some (JStr ''No medical record data''))"
    by (simp_all add: placeholders_def)
  have "trace ?v = []"
    by (simp add: scripted_def)
  then have callsv: "calls_made 3 ''CALL_1'' two_attempts ?v = 2"
    by (simp add: calls_made_def eval_two_attempts status_calls_def)
  have resv: "fst (pollStatus 3 ''CALL_1'' two_attempts ?v) =
      Some (Inl (Error ''Timeout: Data not available after maximum attempts''))"
    by (simp add: eval_two_attempts)
  have "trace ?w = []"
    by (simp add: scripted_def)
  then have calls: "calls_made 2 ''CALL_1'' logging ?w = 2"
    by (simp add: calls_made_def eval_logging status_calls_def)
  note inst = pollStatus_returns_first_data [where i = 2 and options = logging and w = ?w
      and st = report_ready and fuel = 2 and callId = "''CALL_1''" and fuel' = 3
      and options' = two_attempts and w' = ?v
      and error = "Error ''Timeout: Data not available after maximum attempts''"
      and st' = placeholders and st'' = placeholders]
  from inst le o2 before
  have run: "pollStatus 2 ''CALL_1'' logging ?w =
        (Some (Inr report_ready),
         advanced ?w (calls_from (onProgress logging) (maxAttempts_of logging) 1 (2 + 1))
           (rounds ''CALL_1'' (maxAttempts_of logging) (interval_of logging) (onProgress logging) 1
              (nat (2 - 1))
            @ attempt_events ''CALL_1'' (maxAttempts_of logging) (onProgress logging) 2))"
    by simp
  then have res: "fst (pollStatus 2 ''CALL_1'' logging ?w) = Some (Inr report_ready)"
    by simp
  from inst calls have n0: "\<not> gives_data (status_of (net ?w 0))"
    by simp
  from inst res calls have last: "status_of (net ?w (2 - 1)) = Inr report_ready"
    by simp
  have g1: "gives_data (status_of (net ?w (2 - 1)))"
    by (simp add: gives_data_def status_of_def scripted_def answers_def report_ready_def
        has_meaningful_data_def non_null_object_def)
  from inst calls g1 have got: "\<exists>s. fst (pollStatus 2 ''CALL_1'' logging ?w) = Some (Inr s)"
    by simp
  from inst resv callsv have "\<forall>j. j < 2 \<longrightarrow> \<not> gives_data (status_of (net ?v j))"
    by simp
  then have v0: "\<not> gives_data (status_of (net ?v 0))" and v1: "\<not> gives_data (status_of (net ?v 1))"
    by simp_all
  from inst p1 p2 have "judge (Inr placeholders) = Normal"
    by blast
  with le o2 o1 res calls n0 g1 got last resv callsv v0 v1 p1 p2 show ?thesis
    by simp
qed

text \<open>
  C3. The attempts of a run are made in the order 1, 2, ... (the number of the
  \<open>i\<close>-th attempt is \<open>i\<close>, as far as the counter counts). Each attempt calls
  \<open>onProgress\<close> with the attempt number and \<open>maxAttempts\<close> when a callback is
  supplied, and then calls \<open>getStatus\<close> (a callback that throws ends its attempt before
  the request). Between two consecutive attempts there is exactly one timer, of
  \<open>interval\<close> milliseconds, 2000 when the option is absent. So what a run has done is
  \<open>k\<close> rounds of attempt and timer: as many as the loop has been run for while it is
  still running, all that \<open>maxAttempts\<close> allows when the loop ran out, or fewer followed
  by the attempt that ended the run. When \<open>maxAttempts\<close> is below \<open>2\<^sup>5\<^sup>3\<close>
  the run ends.
\<close>

theorem pollStatus_attempt_order:
  "(\<exists>k. (fst (pollStatus fuel callId options w) = None \<and> k = fuel \<and>
          trace (snd (pollStatus fuel callId options w)) =
            trace w @ rounds callId (maxAttempts_of options) (interval_of options)
                        (onProgress options) 1 k)
      \<or> ((\<exists>r. fst (pollStatus fuel callId options w) = Some r) \<and>
          (\<exists>m. last_attempt (maxAttempts_of options) = Some m \<and> int k = max 0 m) \<and>
          trace (snd (pollStatus fuel callId options w)) =
            trace w @ rounds callId (maxAttempts_of options) (interval_of options)
                        (onProgress options) 1 k)
      \<or> ((\<exists>r. fst (pollStatus fuel callId options w) = Some r) \<and>
          js_le (attempt_number (int k + 1)) (maxAttempts_of options) \<and>
          trace (snd (pollStatus fuel callId options w)) =
            trace w @ rounds callId (maxAttempts_of options) (interval_of options)
                        (onProgress options) 1 k
                    @ attempt_events callId (maxAttempts_of options) (onProgress options)
                        (attempt_number (int k + 1)))) \<and>
   (i \<le> 2 ^ 53 \<longrightarrow> attempt_number i = i) \<and>
   (last_attempt (maxAttempts_of options) = Some n \<longrightarrow> nat n < fuel \<longrightarrow>
      (\<exists>r. fst (pollStatus fuel callId options w) = Some r))"
proof (intro conjI)
  let ?R = "pollLoop fuel callId (maxAttempts_of options) (interval_of options) (onProgress options)
      (attempt_number 1) w"
  have R: "pollStatus fuel callId options w = ?R"
    by (simp add: pollStatus_def)
  from pollLoop_trace [of fuel callId "maxAttempts_of options" "interval_of options"
      "onProgress options" 1 w]
  obtain k where k:
    "(fst ?R = None \<and> k = fuel \<and>
        trace (snd ?R) = trace w @ rounds callId (maxAttempts_of options) (interval_of options)
                        (onProgress options) 1 k)
     \<or> ((\<exists>r. fst ?R = Some r) \<and>
        (k = 0 \<or> js_le (attempt_number (1 + int k - 1)) (maxAttempts_of options)) \<and>
        \<not> js_le (attempt_number (1 + int k)) (maxAttempts_of options) \<and>
        trace (snd ?R) = trace w @ rounds callId (maxAttempts_of options) (interval_of options)
                        (onProgress options) 1 k)
     \<or> ((\<exists>r. fst ?R = Some r) \<and> js_le (attempt_number (1 + int k)) (maxAttempts_of options) \<and>
        trace (snd ?R) = trace w @ rounds callId (maxAttempts_of options) (interval_of options)
                        (onProgress options) 1 k
                    @ attempt_events callId (maxAttempts_of options) (onProgress options)
                        (attempt_number (1 + int k)))"
    by blast
  have "\<exists>m. last_attempt (maxAttempts_of options) = Some m \<and> int k = max 0 m"
    if "k = 0 \<or> js_le (attempt_number (1 + int k - 1)) (maxAttempts_of options)"
      "\<not> js_le (attempt_number (1 + int k)) (maxAttempts_of options)"
    using ran_out_last [of k "maxAttempts_of options"] that by simp
  with k show "\<exists>k. (fst (pollStatus fuel callId options w) = None \<and> k = fuel \<and>
          trace (snd (pollStatus fuel callId options w)) =
            trace w @ rounds callId (maxAttempts_of options) (interval_of options)
                        (onProgress options) 1 k)
      \<or> ((\<exists>r. fst (pollStatus fuel callId options w) = Some r) \<and>
          (\<exists>m. last_attempt (maxAttempts_of options) = Some m \<and> int k = max 0 m) \<and>
          trace (snd (pollStatus fuel callId options w)) =
            trace w @ rounds callId (maxAttempts_of options) (interval_of options)
                        (onProgress options) 1 k)
      \<or> ((\<exists>r. fst (pollStatus fuel callId options w) = Some r) \<and>
          js_le (attempt_number (int k + 1)) (maxAttempts_of options) \<and>
          trace (snd (pollStatus fuel callId options w)) =
            trace w @ rounds callId (maxAttempts_of options) (interval_of options)
                        (onProgress options) 1 k
                    @ attempt_events callId (maxAttempts_of options) (onProgress options)
                        (attempt_number (int k + 1)))"
    unfolding R by (intro exI [of _ k]) (auto simp: add.commute)
  show "i \<le> 2 ^ 53 \<longrightarrow> attempt_number i = i"
    by (simp add: attempt_number_small)
  show "last_attempt (maxAttempts_of options) = Some n \<longrightarrow> nat n < fuel \<longrightarrow>
      (\<exists>r. fst (pollStatus fuel callId options w) = Some r)"
    using pollLoop_ends [of "maxAttempts_of options" n 1 fuel callId "interval_of options"
        "onProgress options" w]
    by (simp add: pollStatus_def)
qed

theorem pollStatus_attempt_order_witness:
  "last_attempt (maxAttempts_of two_attempts) = Some 2 \<and> nat 2 < (3::nat) \<and>
   fst (pollStatus 3 ''CALL_1'' two_attempts (scripted [no_records])) =
     Some (Inl (Error ''Timeout: Data not available after maximum attempts'')) \<and>
   (2::int) \<le> 2 ^ 53 \<and> attempt_number 2 = 2"
proof -
  have la: "last_attempt (maxAttempts_of two_attempts) = Some 2"
    by (simp add: two_attempts_def last_attempt_def)
  note inst = pollStatus_attempt_order [where fuel = 3 and callId = "''CALL_1''"
      and options = two_attempts and w = "scripted [no_records]" and n = 2 and i = 2]
  from inst la
  have "\<exists>r. fst (pollStatus 3 ''CALL_1'' two_attempts (scripted [no_records])) = Some r"
    by simp
  moreover from inst have "attempt_number 2 = 2"
    by simp
  ultimately show ?thesis using la by (simp add: eval_two_attempts)
qed

text \<open>
  C7, as amended. Every request of the module goes to one of two fixed hosts, and the
  scheme of both is \<^verbatim>\<open>https\<close>: \<open>analyzeQuery\<close> sends one request to
  \<^verbatim>\<open>/analyze\<close> and \<open>checkMultiAgentHealth\<close> one to \<^verbatim>\<open>/health\<close> on the multi-agent
  host, \<open>getStatus\<close> sends one to \<^verbatim>\<open>/status\<close> and \<open>checkBackendHealth\<close> one to
  \<^verbatim>\<open>/\<close> on the backend host, and every request of \<open>pollStatus\<close>, however long it
  runs, is the status request of \<open>getStatus\<close>.
\<close>

theorem api_requests_https:
  "trace (snd (analyzeQuery query w)) = trace w @ [Fetch (analyze_request query)] \<and>
   url (analyze_request query) = ''https://nokia-multi-agent.vercel.app/analyze'' \<and>
   trace (snd (getStatus callId w)) = trace w @ [Fetch (status_request callId)] \<and>
   url (status_request callId) =
     ''https://nokia-backend.vercel.app/status?call_id='' @ encodeURIComponent callId \<and>
   trace (snd (checkMultiAgentHealth w)) =
     trace w @ [Fetch (get_request ''https://nokia-multi-agent.vercel.app/health'')] \<and>
   trace (snd (checkBackendHealth w)) =
     trace w @ [Fetch (get_request ''https://nokia-backend.vercel.app/'')] \<and>
   (\<exists>k. filter is_fetch (trace (snd (pollStatus fuel callId options w))) =
      filter is_fetch (trace w) @ replicate k (Fetch (status_request callId)))"
proof -
  have "trace (snd (analyzeQuery query w)) = trace w @ [Fetch (analyze_request query)]"
    by (simp add: analyzeQuery_def fetch_def split: fetch_outcome.splits sum.splits)
  moreover have "url (analyze_request query) = ''https://nokia-multi-agent.vercel.app/analyze''"
    by (simp add: analyze_request_def MULTI_AGENT_BASE_URL_def)
  moreover have "trace (snd (getStatus callId w)) = trace w @ [Fetch (status_request callId)]"
    by (simp add: getStatus_eq)
  moreover have "url (status_request callId) =
     ''https://nokia-backend.vercel.app/status?call_id='' @ encodeURIComponent callId"
    by (simp add: status_request_def get_request_def BACKEND_BASE_URL_def)
  moreover have "trace (snd (checkMultiAgentHealth w)) =
     trace w @ [Fetch (get_request ''https://nokia-multi-agent.vercel.app/health'')]"
    by (simp add: checkMultiAgentHealth_def fetch_def MULTI_AGENT_BASE_URL_def
        split: fetch_outcome.splits)
  moreover have "trace (snd (checkBackendHealth w)) =
     trace w @ [Fetch (get_request ''https://nokia-backend.vercel.app/'')]"
    by (simp add: checkBackendHealth_def fetch_def BACKEND_BASE_URL_def
        split: fetch_outcome.splits)
  moreover have "\<exists>k. filter is_fetch (trace (snd (pollStatus fuel callId options w))) =
      filter is_fetch (trace w) @ replicate k (Fetch (status_request callId))"
    using pollLoop_fetches by (simp add: pollStatus_def)
  ultimately show ?thesis by blast
qed

text \<open>
  C7, as stated, says that the services are reached over plain HTTP. The request of
  \<open>checkBackendHealth\<close> is to an \<^verbatim>\<open>https\<close> URL.
\<close>

theorem backend_health_not_plain_http:
  "trace (snd (checkBackendHealth (scripted []))) =
     [Fetch (get_request ''https://nokia-backend.vercel.app/'')] \<and>
   \<not> plain_http ''https://nokia-backend.vercel.app/''"
  by (simp add: checkBackendHealth_def fetch_def BACKEND_BASE_URL_def scripted_def
      served_def emit_def plain_http_def)

text \<open>
  C8, as amended. An error thrown by \<open>pollStatus\<close> is always one of its two timeout
  errors, whatever the errors of \<open>getStatus\<close> were. When \<open>maxAttempts\<close> is an integer
  \<open>n\<close> from 1 to \<open>2\<^sup>5\<^sup>3\<close> and no attempt before the \<open>n\<close>-th finds data, the
  errors of those attempts, whatever they are, are dropped and attempt \<open>n\<close> is made: the
  run ends with \<open>Timeout: Data not available after maximum attempts\<close> when the \<^verbatim>\<open>try\<close>
  block of attempt \<open>n\<close> threw. When every attempt that \<open>maxAttempts\<close> (below
  \<open>2\<^sup>5\<^sup>3\<close>) allows is quiet, that is, it got a status without data, or it threw and its
  number is not \<open>maxAttempts\<close>, all of them are made and the run ends, after one more
  timer, with \<open>Timeout: Failed to get status after maximum attempts\<close>. When
  \<open>maxAttempts\<close> allows no attempt, the run ends with that error at once.
\<close>

theorem pollStatus_timeout_errors:
  "(fst (pollStatus fuel callId options w) = Some (Inl err) \<longrightarrow>
      err = Error ''Timeout: Data not available after maximum attempts'' \<or>
      err = Error ''Timeout: Failed to get status after maximum attempts'') \<and>
   (maxAttempts_of options' = Num (of_int n) \<longrightarrow> 1 \<le> n \<longrightarrow> n \<le> 2 ^ 53 \<longrightarrow>
    (\<forall>t. 1 \<le> t \<and> t < n \<longrightarrow>
       \<not> finds_data (outcome_from (onProgress options') (maxAttempts_of options') w1 1 t)) \<longrightarrow>
    outcome_from (onProgress options') (maxAttempts_of options') w1 1 n = Throw e \<longrightarrow>
    nat n \<le> fuel1 \<longrightarrow>
      pollStatus fuel1 callId options' w1 =
        (Some (Inl (Error ''Timeout: Data not available after maximum attempts'')),
         advanced w1 (calls_from (onProgress options') (maxAttempts_of options') 1 (n + 1))
           (rounds callId (maxAttempts_of options') (interval_of options') (onProgress options') 1
              (nat (n - 1))
            @ attempt_events callId (maxAttempts_of options') (onProgress options') n))) \<and>
   (last_attempt (maxAttempts_of options2) = Some m \<longrightarrow> 0 \<le> m \<longrightarrow>
    (\<forall>t. 1 \<le> t \<and> t \<le> m \<longrightarrow>
       quiet (outcome_from (onProgress options2) (maxAttempts_of options2) w2 1 t) t
         (maxAttempts_of options2)) \<longrightarrow>
    nat m < fuel2 \<longrightarrow>
      pollStatus fuel2 callId options2 w2 =
        (Some (Inl (Error ''Timeout: Failed to get status after maximum attempts'')),
         advanced w2 (calls_from (onProgress options2) (maxAttempts_of options2) 1 (m + 1))
           (rounds callId (maxAttempts_of options2) (interval_of options2) (onProgress options2) 1
              (nat m)))) \<and>
   (\<not> js_le 1 (maxAttempts_of options'') \<longrightarrow> 0 < fuel3 \<longrightarrow>
      pollStatus fuel3 callId options'' w3 =
        (Some (Inl (Error ''Timeout: Failed to get status after maximum attempts'')), w3))"
proof (intro conjI)
  from pollStatus_run [of fuel options callId w] obtain k where
    ok: "run_ok callId w (pollStatus fuel callId options w) k"
    by blast
  then show "fst (pollStatus fuel callId options w) = Some (Inl err) \<longrightarrow>
      err = Error ''Timeout: Data not available after maximum attempts'' \<or>
      err = Error ''Timeout: Failed to get status after maximum attempts''"
    by (auto simp: run_ok_def)
next
  have "pollStatus fuel1 callId options' w1 =
        (Some (Inl (Error ''Timeout: Data not available after maximum attempts'')),
         advanced w1 (calls_from (onProgress options') (maxAttempts_of options') 1 (n + 1))
           (rounds callId (maxAttempts_of options') (interval_of options') (onProgress options') 1
              (nat (n - 1))
            @ attempt_events callId (maxAttempts_of options') (onProgress options') n))"
    if "maxAttempts_of options' = Num (of_int n)" "1 \<le> n"
      "\<forall>t. 1 \<le> t \<and> t < n \<longrightarrow>
         \<not> finds_data (outcome_from (onProgress options') (maxAttempts_of options') w1 1 t)"
      "outcome_from (onProgress options') (maxAttempts_of options') w1 1 n = Throw e"
      "nat n \<le> fuel1" "n \<le> 2 ^ 53"
    using pollLoop_last_throws [OF that(1,2,4,3,5,6), of callId "interval_of options'"]
    by (simp add: pollStatus_def)
  then show "maxAttempts_of options' = Num (of_int n) \<longrightarrow> 1 \<le> n \<longrightarrow> n \<le> 2 ^ 53 \<longrightarrow>
    (\<forall>t. 1 \<le> t \<and> t < n \<longrightarrow>
       \<not> finds_data (outcome_from (onProgress options') (maxAttempts_of options') w1 1 t)) \<longrightarrow>
    outcome_from (onProgress options') (maxAttempts_of options') w1 1 n = Throw e \<longrightarrow>
    nat n \<le> fuel1 \<longrightarrow>
      pollStatus fuel1 callId options' w1 =
        (Some (Inl (Error ''Timeout: Data not available after maximum attempts'')),
         advanced w1 (calls_from (onProgress options') (maxAttempts_of options') 1 (n + 1))
           (rounds callId (maxAttempts_of options') (interval_of options') (onProgress options') 1
              (nat (n - 1))
            @ attempt_events callId (maxAttempts_of options') (onProgress options') n))"
    by blast
next
  show "last_attempt (maxAttempts_of options2) = Some m \<longrightarrow> 0 \<le> m \<longrightarrow>
    (\<forall>t. 1 \<le> t \<and> t \<le> m \<longrightarrow>
       quiet (outcome_from (onProgress options2) (maxAttempts_of options2) w2 1 t) t
         (maxAttempts_of options2)) \<longrightarrow>
    nat m < fuel2 \<longrightarrow>
      pollStatus fuel2 callId options2 w2 =
        (Some (Inl (Error ''Timeout: Failed to get status after maximum attempts'')),
         advanced w2 (calls_from (onProgress options2) (maxAttempts_of options2) 1 (m + 1))
           (rounds callId (maxAttempts_of options2) (interval_of options2) (onProgress options2) 1
              (nat m)))"
    using pollLoop_runs_out [of "maxAttempts_of options2" m "onProgress options2" w2 fuel2 callId
        "interval_of options2"]
    by (simp add: pollStatus_def)
next
  show "\<not> js_le 1 (maxAttempts_of options'') \<longrightarrow> 0 < fuel3 \<longrightarrow>
      pollStatus fuel3 callId options'' w3 =
        (Some (Inl (Error ''Timeout: Failed to get status after maximum attempts'')), w3)"
    by (cases fuel3) (simp_all add: pollStatus_def pollLoop_Suc)
qed

theorem pollStatus_timeout_errors_witness:
  "fst (pollStatus 3 ''CALL_1'' two_attempts (scripted [no_records])) =
     Some (Inl (Error ''Timeout: Data not available after maximum attempts'')) \<and>
   maxAttempts_of two_attempts = Num (of_int 2) \<and> (1::int) \<le> 2 \<and> (2::int) \<le> 2 ^ 53 \<and>
   outcome_from (onProgress two_attempts) (maxAttempts_of two_attempts) (scripted [no_records]) 1 1 =
     Throw (Error ''No records found for this call ID'') \<and>
   outcome_from (onProgress two_attempts) (maxAttempts_of two_attempts) (scripted [no_records]) 1 2 =
     Throw (TypeError ''Network request failed'') \<and>
   nat 2 \<le> (3::nat) \<and>
   last_attempt (maxAttempts_of two_attempts) = Some 2 \<and> (0::int) \<le> 2 \<and>
   quiet (outcome_from (onProgress two_attempts) (maxAttempts_of two_attempts)
     (scripted [no_records, answers placeholders]) 1 1) 1 (maxAttempts_of two_attempts) \<and>
   quiet (outcome_from (onProgress two_attempts) (maxAttempts_of two_attempts)
     (scripted [no_records, answers placeholders]) 1 2) 2 (maxAttempts_of two_attempts) \<and>
   outcome_from (onProgress two_attempts) (maxAttempts_of two_attempts)
     (scripted [no_records, answers placeholders]) 1 2 = Normal \<and>
   nat 2 < (3::nat) \<and>
   fst (pollStatus 3 ''CALL_1'' two_attempts (scripted [no_records, answers placeholders])) =
     Some (Inl (Error ''Timeout: Failed to get status after maximum attempts'')) \<and>
   \<not> js_le 1 (maxAttempts_of no_attempts) \<and> (0::nat) < 1 \<and>
   pollStatus 1 ''CALL_1'' no_attempts (scripted []) =
     (Some (Inl (Error ''Timeout: Failed to get status after maximum attempts'')), scripted [])"
proof -
  let ?v = "scripted [no_records]"
  let ?u = "scripted [no_records, answers placeholders]"
  have mx: "maxAttempts_of two_attempts = Num (of_int 2)"
    by (simp add: two_attempts_def)
  have v1: "outcome_from (onProgress two_attempts) (maxAttempts_of two_attempts) ?v 1 1 =
      Throw (Error ''No records found for this call ID'')"
    and v2: "outcome_from (onProgress two_attempts) (maxAttempts_of two_attempts) ?v 1 2 =
      Throw (TypeError ''Network request failed'')"
    and u1: "outcome_from (onProgress two_attempts) (maxAttempts_of two_attempts) ?u 1 1 =
      Throw (Error ''No records found for this call ID'')"
    and u2: "outcome_from (onProgress two_attempts) (maxAttempts_of two_attempts) ?u 1 2 = Normal"
    using eval_calls_two_attempts
    by (simp_all add: outcome_from_def progress_result_def judge_def status_of_def
        has_meaningful_data_def non_null_object_def placeholders_def scripted_def answers_def
        no_records_def two_attempts_def)
  have bv: "\<forall>t. 1 \<le> t \<and> t < 2 \<longrightarrow>
      \<not> finds_data (outcome_from (onProgress two_attempts) (maxAttempts_of two_attempts) ?v 1 t)"
  proof (intro allI impI)
    fix t :: int assume "1 \<le> t \<and> t < 2"
    then have "t = 1" by simp
    with v1 show "\<not> finds_data (outcome_from (onProgress two_attempts) (maxAttempts_of two_attempts) ?v 1 t)"
      by (simp add: finds_data_def)
  qed
  have la: "last_attempt (maxAttempts_of two_attempts) = Some 2"
    by (simp add: two_attempts_def last_attempt_def)
  have q1: "quiet (outcome_from (onProgress two_attempts) (maxAttempts_of two_attempts) ?u 1 1) 1
      (maxAttempts_of two_attempts)"
    by (simp add: u1 quiet_def) (simp add: two_attempts_def)
  have q2: "quiet (outcome_from (onProgress two_attempts) (maxAttempts_of two_attempts) ?u 1 2) 2
      (maxAttempts_of two_attempts)"
    by (simp add: u2 quiet_def)
  have bu: "\<forall>t. 1 \<le> t \<and> t \<le> 2 \<longrightarrow>
      quiet (outcome_from (onProgress two_attempts) (maxAttempts_of two_attempts) ?u 1 t) t
        (maxAttempts_of two_attempts)"
  proof (intro allI impI)
    fix t :: int assume "1 \<le> t \<and> t \<le> 2"
    then have "t = 1 \<or> t = 2" by auto
    with q1 q2 show "quiet (outcome_from (onProgress two_attempts) (maxAttempts_of two_attempts) ?u 1 t)
        t (maxAttempts_of two_attempts)"
      by auto
  qed
  have na: "\<not> js_le 1 (maxAttempts_of no_attempts)"
    by (simp add: no_attempts_def)
  note inst = pollStatus_timeout_errors [where fuel = 3 and callId = "''CALL_1''"
      and options = two_attempts and w = ?v
      and err = "Error ''Timeout: Data not available after maximum attempts''"
      and options' = two_attempts and n = 2 and ?w1.0 = ?v
      and e = "TypeError ''Network request failed''" and ?fuel1.0 = 3
      and ?options2.0 = two_attempts and m = 2
      and ?w2.0 = ?u and ?fuel2.0 = 3 and options'' = no_attempts and ?fuel3.0 = 1
      and ?w3.0 = "scripted []"]
  from inst mx bv v2
  have "pollStatus 3 ''CALL_1'' two_attempts ?v =
        (Some (Inl (Error ''Timeout: Data not available after maximum attempts'')),
         advanced ?v (calls_from (onProgress two_attempts) (maxAttempts_of two_attempts) 1 (2 + 1))
           (rounds ''CALL_1'' (maxAttempts_of two_attempts) (interval_of two_attempts)
              (onProgress two_attempts) 1 (nat (2 - 1))
            @ attempt_events ''CALL_1'' (maxAttempts_of two_attempts) (onProgress two_attempts) 2))"
    by simp
  then have resv: "fst (pollStatus 3 ''CALL_1'' two_attempts ?v) =
      Some (Inl (Error ''Timeout: Data not available after maximum attempts''))"
    by simp
  from inst la bu
  have "pollStatus 3 ''CALL_1'' two_attempts ?u =
        (Some (Inl (Error ''Timeout: Failed to get status after maximum attempts'')),
         advanced ?u (calls_from (onProgress two_attempts) (maxAttempts_of two_attempts) 1 (2 + 1))
           (rounds ''CALL_1'' (maxAttempts_of two_attempts) (interval_of two_attempts)
              (onProgress two_attempts) 1 (nat 2)))"
    by simp
  then have resu: "fst (pollStatus 3 ''CALL_1'' two_attempts ?u) =
      Some (Inl (Error ''Timeout: Failed to get status after maximum attempts''))"
    by simp
  from inst na have "pollStatus 1 ''CALL_1'' no_attempts (scripted []) =
     (Some (Inl (Error ''Timeout: Failed to get status after maximum attempts'')), scripted [])"
    by simp
  with mx la v1 v2 q1 q2 u2 na resv resu show ?thesis by simp
qed

text \<open>
  C8, as stated, says that the error is the first of the two whenever the final attempt
  errored. With \<open>maxAttempts\<close> 2.5 and a backend that is never reached, both attempts
  fail, the second with a network error, and the run ends with the second error: the
  counter is never equal to 2.5.
\<close>

theorem fractional_last_error_not_reported:
  "maxAttempts two_and_a_half = Some (Num (5 / 2)) \<and>
   calls_made 3 ''CALL_1'' two_and_a_half (scripted []) = 2 \<and>
   status_of (net (scripted []) 1) = Inl (TypeError ''Network request failed'') \<and>
   fst (pollStatus 3 ''CALL_1'' two_and_a_half (scripted [])) =
     Some (Inl (Error ''Timeout: Failed to get status after maximum attempts''))"
proof -
  have "trace (scripted []) = []"
    by (simp add: scripted_def)
  then have "calls_made 3 ''CALL_1'' two_and_a_half (scripted []) = 2"
    by (simp add: calls_made_def eval_two_and_a_half status_calls_def)
  moreover have "maxAttempts two_and_a_half = Some (Num (5 / 2))"
    by (simp add: two_and_a_half_def)
  moreover have "status_of (net (scripted []) 1) = Inl (TypeError ''Network request failed'')"
    by (simp add: status_of_def scripted_def)
  moreover have "fst (pollStatus 3 ''CALL_1'' two_and_a_half (scripted [])) =
      Some (Inl (Error ''Timeout: Failed to get status after maximum attempts''))"
    by (simp add: eval_two_and_a_half)
  ultimately show ?thesis by blast
qed

text \<open>
  C9. Neither health check ever throws. Each returns \<open>true\<close> exactly when its request
  resolves with an \<open>ok\<close> response, and \<open>false\<close> both for a resolved response that is
  not \<open>ok\<close> and for a request that rejects with any error.
\<close>

theorem health_checks_never_throw:
  "fst (checkMultiAgentHealth w) =
     Inr (case net w 0 of Resolves r \<Rightarrow> ok r | Rejects e \<Rightarrow> False) \<and>
   fst (checkBackendHealth w) =
     Inr (case net w 0 of Resolves r \<Rightarrow> ok r | Rejects e \<Rightarrow> False)"
  by (simp add: checkMultiAgentHealth_def checkBackendHealth_def fetch_def
      split: fetch_outcome.split)

section \<open>Properties of the voice-consultation screen\<close>

text \<open>
  C6. A \<^verbatim>\<open>message\<close> event whose type is \<^verbatim>\<open>transcript\<close> and whose transcript type is
  \<^verbatim>\<open>final\<close> appends one entry to the transcript, to the ref and to the state alike. The
  speaker of the entry is \<open>doctor\<close> when the role of the message is \<^verbatim>\<open>assistant\<close> and
  \<open>patient\<close> otherwise, and its text is the \<^verbatim>\<open>transcript\<close> field of the message. Every
  other message leaves both unchanged (the listener throws, having changed nothing, when
  the message is \<^verbatim>\<open>null\<close>).
\<close>

theorem message_appends_final_transcript:
  "(final_transcript message \<longrightarrow>
      (\<exists>entry. on_message message s =
           Inr (s\<lparr>transcriptRef := transcriptRef s @ [entry],
                  transcript := transcript s @ [entry]\<rparr>) \<and>
         speaker entry =
           (if get_prop message ''role'' = Inr (Some (JStr ''assistant'')) then ''doctor''
            else ''patient'') \<and>
         get_prop message ''transcript'' = Inr (text_of entry))) \<and>
   (\<not> final_transcript other \<longrightarrow>
      on_message other s = Inr s \<or> (other = JNull \<and> (\<exists>error. on_message other s = Inl error)))"
proof (rule conjI)
  show "final_transcript message \<longrightarrow>
      (\<exists>entry. on_message message s =
           Inr (s\<lparr>transcriptRef := transcriptRef s @ [entry],
                  transcript := transcript s @ [entry]\<rparr>) \<and>
         speaker entry =
           (if get_prop message ''role'' = Inr (Some (JStr ''assistant'')) then ''doctor''
            else ''patient'') \<and>
         get_prop message ''transcript'' = Inr (text_of entry))"
    by (cases message) (auto simp: final_transcript_def on_message_def Let_def)
  show "\<not> final_transcript other \<longrightarrow>
      on_message other s = Inr s \<or> (other = JNull \<and> (\<exists>error. on_message other s = Inl error))"
    by (cases other) (auto simp: final_transcript_def on_message_def Let_def)
qed

theorem message_appends_final_transcript_witness:
  "final_transcript patient_says \<and>
   \<not> final_transcript partial_words \<and>
   on_message patient_says \<lparr>transcript = [], transcriptRef = []\<rparr> =
     Inr \<lparr>transcript = [\<lparr>speaker = ''patient'', text_of = Some (JStr ''I have a headache'')\<rparr>],
          transcriptRef = [\<lparr>speaker = ''patient'', text_of = Some (JStr ''I have a headache'')\<rparr>]\<rparr> \<and>
   on_message partial_words \<lparr>transcript = [], transcriptRef = []\<rparr> =
     Inr \<lparr>transcript = [], transcriptRef = []\<rparr>"
proof -
  let ?s = "\<lparr>transcript = [], transcriptRef = []\<rparr>"
  have f: "final_transcript patient_says" and n: "\<not> final_transcript partial_words"
    by (simp_all add: final_transcript_def patient_says_def partial_words_def)
  have role: "get_prop patient_says ''role'' \<noteq> Inr (Some (JStr ''assistant''))"
    and tr: "get_prop patient_says ''transcript'' = Inr (Some (JStr ''I have a headache''))"
    and nn: "partial_words \<noteq> JNull"
    by (simp_all add: patient_says_def partial_words_def)
  note inst = message_appends_final_transcript [of patient_says ?s partial_words]
  from inst f have "\<exists>entry. on_message patient_says ?s =
           Inr (?s\<lparr>transcriptRef := transcriptRef ?s @ [entry],
                  transcript := transcript ?s @ [entry]\<rparr>) \<and>
         speaker entry =
           (if get_prop patient_says ''role'' = Inr (Some (JStr ''assistant'')) then ''doctor''
            else ''patient'') \<and>
         get_prop patient_says ''transcript'' = Inr (text_of entry)"
    by (rule conjunct1 [THEN mp])
  then obtain entry where
    e1: "on_message patient_says ?s =
       Inr (?s\<lparr>transcriptRef := transcriptRef ?s @ [entry], transcript := transcript ?s @ [entry]\<rparr>)"
    and e2: "speaker entry =
           (if get_prop patient_says ''role'' = Inr (Some (JStr ''assistant'')) then ''doctor''
            else ''patient'')"
    and e3: "get_prop patient_says ''transcript'' = Inr (text_of entry)"
    by blast
  from e2 role have "speaker entry = ''patient''" by simp
  moreover from e3 tr have "text_of entry = Some (JStr ''I have a headache'')" by simp
  ultimately have "entry = \<lparr>speaker = ''patient'', text_of = Some (JStr ''I have a headache'')\<rparr>"
    by (cases entry) simp
  with e1 have "on_message patient_says ?s =
     Inr \<lparr>transcript = [\<lparr>speaker = ''patient'', text_of = Some (JStr ''I have a headache'')\<rparr>],
          transcriptRef = [\<lparr>speaker = ''patient'', text_of = Some (JStr ''I have a headache'')\<rparr>]\<rparr>"
    by simp
  moreover from inst n nn have "on_message partial_words ?s = Inr ?s"
    by blast
  ultimately show ?thesis using f n by simp
qed

section \<open>Properties of the video-call screen\<close>

lemma kind_stop_track [simp]: "kind (stop_track v tr t) = kind (tr t)"
  by (simp add: stop_track_def)

lemma getVideoTracks_stop [simp]: "getVideoTracks (stop_track v tr) strm = getVideoTracks tr strm"
  by (simp add: getVideoTracks_def)

lemma sends_video_stop [simp]: "sends_video (stop_track v tr) = sends_video tr"
  by (rule ext) (simp add: sends_video_def split: option.splits)

lemma first_filter_Some: "first (filter P xs) = Some x \<Longrightarrow> P x \<and> x \<in> set xs"
  by (induction xs) (auto split: if_splits)

lemma stopped_fold_stop:
  "stopped (fold stop_track strm tr t) \<longleftrightarrow> t \<in> set strm \<or> stopped (tr t)"
  by (induction strm arbitrary: tr) (auto simp: stop_track_def)

lemma find_index_Some:
  "find_index P xs = Some i \<Longrightarrow> i < length xs \<and> P (xs ! i)"
  by (induction xs arbitrary: i) (auto split: if_splits)

lemma swap_video_keeps:
  "length (swap_video tr v senders) = length senders \<and>
   (\<forall>j. j < length senders \<longrightarrow> \<not> sends_video tr (senders ! j) \<longrightarrow>
      swap_video tr v senders ! j = senders ! j)"
proof (cases "find_index (sends_video tr) senders")
  case None
  then show ?thesis by (simp add: swap_video_def)
next
  case (Some i)
  from find_index_Some [OF this] have "sends_video tr (senders ! i)" by simp
  then have "\<And>j. \<not> sends_video tr (senders ! j) \<Longrightarrow> i \<noteq> j" by auto
  with Some show ?thesis by (simp add: swap_video_def)
qed

lemma flipped_eq:
  assumes "localStream (state s) = Some strm"
  shows "flipped newStream s =
     s\<lparr>tracks := (case first (getVideoTracks (tracks s) strm) of
                    None \<Rightarrow> tracks s | Some v \<Rightarrow> stop_track v (tracks s)),
       currentCall := map_option (\<lambda>c. c\<lparr>peerConnection :=
           map_option (swap_video (tracks s) (first (getVideoTracks (tracks s) newStream)))
             (peerConnection c)\<rparr>) (currentCall s),
       state := (state s)\<lparr>localStream := Some newStream,
                  facingMode := (if facingMode (state s) = User then Environment else User)\<rparr>\<rparr>"
  using assms
  by (auto simp: flipped_def press_def flipCamera_def replace_video_def swap_video_def Let_def
      split: option.splits)

lemma calling_eval:
  "calling = setup_screen
     \<lparr>state := (state setup_screen)\<lparr>isCalling := True, localStream := Some [0, 1]\<rparr>,
       currentCall := Some \<lparr>peer = ''doctor-42'', peerConnection = Some [Some 0, Some 1],
                             listeners = state setup_screen\<rparr>\<rparr>"
  by (simp add: calling_def startCall_def startLocalStream_def setup_screen_def blank_def)

lemma in_call_eval:
  "in_call = setup_screen
     \<lparr>state := (state setup_screen)\<lparr>isCalling := False, localStream := Some [0, 1],
                 remoteStream := Some [2, 3], isCallActive := True\<rparr>,
       currentCall := Some \<lparr>peer = ''doctor-42'', peerConnection = Some [Some 0, Some 1],
                             listeners = state setup_screen\<rparr>,
       callStartTime := Some 1000\<rparr>"
  by (simp add: in_call_def calling_eval on_stream_def setup_screen_def)

text \<open>
  When the End Call button is pressed, \<open>endCall\<close> tears the call down completely: no
  current call, every track of the local stream stopped, both streams cleared and the
  four flags false.
\<close>

lemma endCall_pressed:
  "currentCall (press endCall s) = None \<and>
   (\<forall>strm t. localStream (state s) = Some strm \<longrightarrow> t \<in> set strm \<longrightarrow>
      stopped (tracks (press endCall s) t)) \<and>
   localStream (state (press endCall s)) = None \<and>
   remoteStream (state (press endCall s)) = None \<and>
   \<not> isCallActive (state (press endCall s)) \<and>
   \<not> isCalling (state (press endCall s)) \<and>
   \<not> isMuted (state (press endCall s)) \<and>
   \<not> isVideoOff (state (press endCall s))"
  by (auto simp: press_def endCall_def handleCallAnalysis_def Let_def stopped_fold_stop
      split: option.splits)

text \<open>
  Whatever render made it, \<open>endCall\<close> clears the current call, the remote stream and
  the four flags. What it does to the local stream depends on the \<^verbatim>\<open>localStream\<close> it was
  made with: when that is \<^verbatim>\<open>null\<close>, the tracks and the local stream of the component
  stay as they are.
\<close>

lemma endCall_any_render:
  "currentCall (endCall r s) = None \<and>
   (\<forall>strm t. localStream r = Some strm \<longrightarrow> t \<in> set strm \<longrightarrow> stopped (tracks (endCall r s) t)) \<and>
   (localStream r \<noteq> None \<longrightarrow> localStream (state (endCall r s)) = None) \<and>
   (localStream r = None \<longrightarrow>
      localStream (state (endCall r s)) = localStream (state s) \<and> tracks (endCall r s) = tracks s) \<and>
   remoteStream (state (endCall r s)) = None \<and>
   \<not> isCallActive (state (endCall r s)) \<and>
   \<not> isCalling (state (endCall r s)) \<and>
   \<not> isMuted (state (endCall r s)) \<and>
   \<not> isVideoOff (state (endCall r s))"
  by (auto simp: endCall_def handleCallAnalysis_def Let_def stopped_fold_stop
      split: option.splits)

text \<open>
  C4. The claim holds for a press of the End Call button (\<open>endCall_pressed\<close>), not
  for every run of \<open>endCall\<close>. The \<^verbatim>\<open>close\<close> listener of a connection calls the
  \<open>endCall\<close> of the render in which Start Call was pressed, and in that render
  \<^verbatim>\<open>localStream\<close> is \<^verbatim>\<open>null\<close>: the stream is obtained only inside \<open>startCall\<close>. So
  when the other side hangs up, the call is cleared and the flags are reset, but the
  local stream stays set and its microphone and camera tracks keep running.
\<close>

theorem remote_hangup_leaves_local_stream:
  "map_option listeners (currentCall in_call) = Some (state setup_screen) \<and>
   localStream (state setup_screen) = None \<and>
   localStream (state in_call) = Some [0, 1] \<and>
   localStream (state hung_up) = Some [0, 1] \<and>
   \<not> stopped (tracks hung_up 0) \<and>
   \<not> stopped (tracks hung_up 1) \<and>
   currentCall hung_up = None \<and>
   \<not> isCallActive (state hung_up)"
  by (simp add: hung_up_def in_call_def calling_eval on_close_def on_stream_def endCall_def
      handleCallAnalysis_def setup_screen_def device_def Let_def)

text \<open>
  C5. A press of the flip button while there is a local stream, with no error from the
  camera or from \<open>replaceTrack\<close>, toggles \<^verbatim>\<open>facingMode\<close>, leaves \<^verbatim>\<open>isCallActive\<close>,
  \<^verbatim>\<open>isMuted\<close> and \<^verbatim>\<open>isVideoOff\<close> as they were, touches no audio track, and changes
  the connection of the current call in one place only: the first sender that sends video
  now sends the first video track of the new stream. Every sender that does not send
  video keeps its track. Without a local stream the press changes nothing.
\<close>

theorem flipCamera_replaces_video_track:
  "(localStream (state s) = Some strm \<longrightarrow>
      facingMode (state (flipped newStream s)) =
        (if facingMode (state s) = User then Environment else User) \<and>
      isCallActive (state (flipped newStream s)) = isCallActive (state s) \<and>
      isMuted (state (flipped newStream s)) = isMuted (state s) \<and>
      isVideoOff (state (flipped newStream s)) = isVideoOff (state s) \<and>
      (\<forall>t. kind (tracks s t) = Audio \<longrightarrow> tracks (flipped newStream s) t = tracks s t) \<and>
      currentCall (flipped newStream s) =
        map_option (\<lambda>c. c\<lparr>peerConnection :=
            map_option (swap_video (tracks s) (first (getVideoTracks (tracks s) newStream)))
              (peerConnection c)\<rparr>) (currentCall s)) \<and>
   length (swap_video tr v senders) = length senders \<and>
   (\<forall>j. j < length senders \<longrightarrow> \<not> sends_video tr (senders ! j) \<longrightarrow>
      swap_video tr v senders ! j = senders ! j) \<and>
   (localStream (state u) = None \<longrightarrow> press (\<lambda>r. flipCamera r media rejected) u = u)"
proof -
  have flip: "facingMode (state (flipped newStream s)) =
        (if facingMode (state s) = User then Environment else User) \<and>
      isCallActive (state (flipped newStream s)) = isCallActive (state s) \<and>
      isMuted (state (flipped newStream s)) = isMuted (state s) \<and>
      isVideoOff (state (flipped newStream s)) = isVideoOff (state s) \<and>
      (\<forall>t. kind (tracks s t) = Audio \<longrightarrow> tracks (flipped newStream s) t = tracks s t) \<and>
      currentCall (flipped newStream s) =
        map_option (\<lambda>c. c\<lparr>peerConnection :=
            map_option (swap_video (tracks s) (first (getVideoTracks (tracks s) newStream)))
              (peerConnection c)\<rparr>) (currentCall s)"
    if ls: "localStream (state s) = Some strm"
  proof -
    have audio: "tracks (flipped newStream s) t = tracks s t" if "kind (tracks s t) = Audio" for t
    proof (cases "first (getVideoTracks (tracks s) strm)")
      case None
      then show ?thesis by (simp add: flipped_eq [OF ls])
    next
      case (Some v)
      from first_filter_Some [OF Some [unfolded getVideoTracks_def]]
      have "kind (tracks s v) = Video" by simp
      with that have "t \<noteq> v" by auto
      with Some show ?thesis by (simp add: flipped_eq [OF ls] stop_track_def)
    qed
    then show ?thesis by (simp add: flipped_eq [OF ls])
  qed
  have idle: "press (\<lambda>r. flipCamera r media rejected) u = u" if "localStream (state u) = None"
    using that by (simp add: press_def flipCamera_def)
  from flip swap_video_keeps [of tr v senders] idle show ?thesis by blast
qed

theorem flipCamera_replaces_video_track_witness:
  "localStream (state in_call) = Some [0, 1] \<and>
   facingMode (state in_call) = User \<and>
   facingMode (state (flipped [4, 5] in_call)) = Environment \<and>
   map_option peerConnection (currentCall (flipped [4, 5] in_call)) = Some (Some [Some 0, Some 5]) \<and>
   tracks (flipped [4, 5] in_call) 0 = tracks in_call 0 \<and>
   (0::nat) < length [Some 0, Some (1::nat)] \<and>
   \<not> sends_video (tracks in_call) ([Some 0, Some 1] ! 0) \<and>
   swap_video (tracks in_call) (Some 5) [Some 0, Some 1] ! 0 = Some 0 \<and>
   localStream (state setup_screen) = None \<and>
   press (\<lambda>r. flipCamera r (Inr [4, 5]) None) setup_screen = setup_screen"
proof -
  have ls: "localStream (state in_call) = Some [0, 1]"
    and fm: "facingMode (state in_call) = User"
    and cc: "currentCall in_call = Some \<lparr>peer = ''doctor-42'', peerConnection = Some [Some 0, Some 1],
                             listeners = state setup_screen\<rparr>"
    and tr: "tracks in_call = device"
    by (simp_all add: in_call_eval setup_screen_def)
  have au: "kind (tracks in_call 0) = Audio" and nv: "\<not> sends_video (tracks in_call) ([Some 0, Some 1] ! 0)"
    and nw: "first (getVideoTracks (tracks in_call) [4, 5]) = Some 5"
    and sw: "swap_video (tracks in_call) (Some 5) [Some 0, Some 1] = [Some 0, Some 5]"
    by (simp_all add: tr device_def sends_video_def getVideoTracks_def swap_video_def)
  have none: "localStream (state setup_screen) = None"
    by (simp add: setup_screen_def)
  note inst = flipCamera_replaces_video_track [of in_call "[0, 1]" "[4, 5]" "tracks in_call" "Some 5"
      "[Some 0, Some 1]" setup_screen "Inr [4, 5]" None]
  from inst ls fm have "facingMode (state (flipped [4, 5] in_call)) = Environment"
    by simp
  moreover from inst ls cc nw sw
  have "map_option peerConnection (currentCall (flipped [4, 5] in_call)) = Some (Some [Some 0, Some 5])"
    by simp
  moreover from inst ls au have "tracks (flipped [4, 5] in_call) 0 = tracks in_call 0"
    by blast
  moreover from inst nv have "swap_video (tracks in_call) (Some 5) [Some 0, Some 1] ! 0 = Some 0"
    by simp
  moreover from inst none have "press (\<lambda>r. flipCamera r (Inr [4, 5]) None) setup_screen = setup_screen"
    by blast
  ultimately show ?thesis using ls fm nv none by simp
qed

text \<open>
  C10. A press of the mute button while the local stream has an audio track negates
  the \<^verbatim>\<open>enabled\<close> flag of the first audio track and sets \<^verbatim>\<open>isMuted\<close> to the negation
  of the new flag; a second press restores every track. Without a local stream, or
  without an audio track in it, the press changes nothing.
\<close>

theorem toggleMute_negates_enabled:
  "(localStream (state s) = Some strm \<longrightarrow>
    first (getAudioTracks (tracks s) strm) = Some audioTrack \<longrightarrow>
      enabled (tracks (press toggleMute s) audioTrack) = (\<not> enabled (tracks s audioTrack)) \<and>
      isMuted (state (press toggleMute s)) = (\<not> enabled (tracks (press toggleMute s) audioTrack)) \<and>
      tracks (press toggleMute (press toggleMute s)) = tracks s) \<and>
   (localStream (state u) = None \<or>
    (\<exists>strm. localStream (state u) = Some strm \<and> getAudioTracks (tracks u) strm = []) \<longrightarrow>
      press toggleMute u = u)"
proof -
  have twice: "enabled (tracks (press toggleMute s) audioTrack) = (\<not> enabled (tracks s audioTrack)) \<and>
      isMuted (state (press toggleMute s)) = (\<not> enabled (tracks (press toggleMute s) audioTrack)) \<and>
      tracks (press toggleMute (press toggleMute s)) = tracks s"
    if ls: "localStream (state s) = Some strm"
      and a: "first (getAudioTracks (tracks s) strm) = Some audioTrack"
  proof -
    let ?tr = "(tracks s)(audioTrack := (tracks s audioTrack)\<lparr>enabled := \<not> enabled (tracks s audioTrack)\<rparr>)"
    have once: "press toggleMute s =
        s\<lparr>tracks := ?tr, state := (state s)\<lparr>isMuted := \<not> enabled (?tr audioTrack)\<rparr>\<rparr>"
      using ls a by (simp add: press_def toggleMute_def Let_def)
    have "(\<lambda>t. kind (?tr t) = Audio) = (\<lambda>t. kind (tracks s t) = Audio)"
      by (rule ext) simp
    then have same: "getAudioTracks ?tr strm = getAudioTracks (tracks s) strm"
      by (simp only: getAudioTracks_def)
    have undo: "?tr(audioTrack := (?tr audioTrack)\<lparr>enabled := \<not> enabled (?tr audioTrack)\<rparr>) = tracks s"
      by (rule ext) simp
    have "tracks (press toggleMute (press toggleMute s)) = tracks s"
      unfolding once using ls a same undo
      by (simp add: press_def toggleMute_def Let_def)
    with once show ?thesis by simp
  qed
  have untouched: "press toggleMute u = u"
    if "localStream (state u) = None \<or>
      (\<exists>strm. localStream (state u) = Some strm \<and> getAudioTracks (tracks u) strm = [])"
    using that by (auto simp: press_def toggleMute_def)
  show ?thesis
  proof (rule conjI)
    show "localStream (state s) = Some strm \<longrightarrow>
      first (getAudioTracks (tracks s) strm) = Some audioTrack \<longrightarrow>
      enabled (tracks (press toggleMute s) audioTrack) = (\<not> enabled (tracks s audioTrack)) \<and>
      isMuted (state (press toggleMute s)) = (\<not> enabled (tracks (press toggleMute s) audioTrack)) \<and>
      tracks (press toggleMute (press toggleMute s)) = tracks s"
      by (intro impI, rule twice)
    show "localStream (state u) = None \<or>
      (\<exists>strm. localStream (state u) = Some strm \<and> getAudioTracks (tracks u) strm = []) \<longrightarrow>
      press toggleMute u = u"
      by (intro impI, rule untouched)
  qed
qed

theorem toggleMute_negates_enabled_witness:
  "localStream (state in_call) = Some [0, 1] \<and>
   first (getAudioTracks (tracks in_call) [0, 1]) = Some 0 \<and>
   enabled (tracks in_call 0) \<and>
   \<not> enabled (tracks (press toggleMute in_call) 0) \<and>
   isMuted (state (press toggleMute in_call)) \<and>
   tracks (press toggleMute (press toggleMute in_call)) = tracks in_call \<and>
   localStream (state setup_screen) = None \<and>
   press toggleMute setup_screen = setup_screen"
proof -
  have ls: "localStream (state in_call) = Some [0, 1]"
    and a: "first (getAudioTracks (tracks in_call) [0, 1]) = Some 0"
    and en: "enabled (tracks in_call 0)"
    by (simp_all add: in_call_eval setup_screen_def getAudioTracks_def device_def)
  have none: "localStream (state setup_screen) = None"
    by (simp add: setup_screen_def)
  note inst = toggleMute_negates_enabled [of in_call "[0, 1]" 0 setup_screen]
  from inst ls a en none show ?thesis by simp
qed

end
